theory Spec2Isabelle
  imports Main "HOL-Library.Product_Lexorder"
begin

section \<open>Configuration and the admin gate\<close>

text \<open>
  The module-level settings of \<^verbatim>\<open>api.py\<close> that the handlers read: the admin
  allow-list and the bot token. Python strings are modelled as \<open>string\<close> holding their
  UTF-8 bytes; every separator and prefix the code looks for is ASCII, so splitting and
  prefix tests agree with Python's on code points.
\<close>

record config =
  ADMIN_IDS :: "int set"
  BOT_TOKEN :: string

definition is_admin :: "config \<Rightarrow> int \<Rightarrow> bool" where
  "is_admin cfg user_id = (user_id \<in> ADMIN_IDS cfg)"

definition startswith :: "string \<Rightarrow> string \<Rightarrow> bool" where
  "startswith s p = (take (length p) s = p)"

section \<open>Errors\<close>

text \<open>
  Every \<^verbatim>\<open>raise HTTPException(status_code=..., detail=...)\<close> is a value. Inside a
  handler's \<^verbatim>\<open>try\<close> block an exception is either such an HTTPException or anything
  else (raised by the database driver, the HTTP client or the file system), which the
  \<^verbatim>\<open>except Exception\<close> clause turns into status 500 with \<^verbatim>\<open>str(e)\<close> as detail.
\<close>

datatype http_exception = HTTPException (status_code: nat) (detail: string)

datatype exn = HTTP http_exception | Other string

datatype error_kind =
  NotFound | InvalidArgument | PermissionDenied | Unavailable | InternalError | Unclassified

text \<open>
  The names the specification gives to the statuses (its error taxonomy and its table of
  the HTTP surface): 404, 400, 403, 503 and 500.
\<close>

definition signals :: "http_exception \<Rightarrow> error_kind" where
  "signals e =
     (if status_code e = 404 then NotFound
      else if status_code e = 400 then InvalidArgument
      else if status_code e = 403 then PermissionDenied
      else if status_code e = 503 then Unavailable
      else if status_code e = 500 then InternalError
      else Unclassified)"

section \<open>The store\<close>

text \<open>
  Modelled from the spec: the schema of the \<^verbatim>\<open>posters\<close> and \<^verbatim>\<open>stories\<close> tables,
  which is not in the source. Rows carry the columns the statements of \<^verbatim>\<open>api.py\<close>
  name. The store assigns \<open>id\<close> from a sequence and \<open>created_at\<close> from its clock,
  \<open>order_num\<close> defaults to 0. The default of \<open>slot_number\<close> is not stated anywhere, so
  it is a parameter of the database (\<open>slot_number_default\<close>, \<open>None\<close> for NULL).
\<close>

record poster_row =
  p_id :: int
  p_file_id :: string
  p_caption :: "string option"
  p_ticket_url :: "string option"
  p_venue_map_file_id :: "string option"
  p_created_at :: int
  p_is_active :: bool

record story_row =
  s_id :: int
  s_file_id :: string
  s_caption :: "string option"
  s_slot_number :: "int option"
  s_order_num :: int
  s_created_at :: int
  s_is_active :: bool

datatype assignment = SetCaption string | SetOrderNum int | SetIsActive bool

datatype statement =
    SelectActivePosters
  | SelectLatestPoster
  | SelectPoster int
  | SelectActiveStories
  | InsertStory string "string option" int
  | UpdateStory "assignment list" int
  | DeleteStory int
  | DeactivateSlot int
  | InsertStoryInSlot string "string option" int

text \<open>
  Besides the tables, a database carries two ghost components: \<open>executed\<close>, the
  statements it has run so far (so that "no store access" is a statement about the
  state), and \<open>faults\<close>, the outcomes of the driver's next actions (\<open>Some msg\<close>: the
  next connection acquisition or statement raises an exception with that message; the
  empty list: nothing raises any more).
\<close>

record database =
  posters :: "poster_row list"
  stories :: "story_row list"
  stories_id_seq :: int
  slot_number_default :: "int option"
  executed :: "statement list"
  faults :: "string option list"

type_synonym 'a db_action = "database \<Rightarrow> (exn + 'a) \<times> database"

definition db_return :: "'a \<Rightarrow> 'a db_action" where
  "db_return x db = (Inr x, db)"

definition db_raise :: "http_exception \<Rightarrow> 'a db_action" where
  "db_raise e db = (Inl (HTTP e), db)"

definition db_bind :: "'a db_action \<Rightarrow> ('a \<Rightarrow> 'b db_action) \<Rightarrow> 'b db_action" where
  "db_bind m k db = (case m db of (Inl e, db') \<Rightarrow> (Inl e, db') | (Inr x, db') \<Rightarrow> k x db')"

definition driver_step :: "unit db_action" where
  "driver_step db =
     (case faults db of
        [] \<Rightarrow> (Inr (), db)
      | None # fs \<Rightarrow> (Inr (), db\<lparr>faults := fs\<rparr>)
      | Some msg # fs \<Rightarrow> (Inl (Other msg), db\<lparr>faults := fs\<rparr>))"

text \<open>\<^verbatim>\<open>async with db_pool.acquire() as conn\<close>\<close>

definition acquire :: "unit db_action" where
  "acquire = driver_step"

text \<open>
  \<^verbatim>\<open>conn.fetch\<close>, \<^verbatim>\<open>conn.fetchrow\<close>, \<^verbatim>\<open>conn.execute\<close>: the driver either raises or
  runs the statement on the tables and records it.
\<close>

definition run_statement :: "statement \<Rightarrow> (database \<Rightarrow> 'a \<times> database) \<Rightarrow> 'a db_action" where
  "run_statement stmt sem =
     db_bind driver_step (\<lambda>_ db.
       (case sem db of (r, db') \<Rightarrow> (Inr r, db'\<lparr>executed := executed db' @ [stmt]\<rparr>)))"

text \<open>
  The frame every database handler shares: \<^verbatim>\<open>if not db_pool: raise 503\<close>, then the
  \<^verbatim>\<open>try\<close> block, whose HTTPExceptions pass through and whose other exceptions
  become status 500. (The handlers without an \<^verbatim>\<open>except HTTPException: raise\<close> clause
  raise no HTTPException inside the block.) The detail of the 503 is the same string in
  every handler modelled here.
\<close>

definition with_pool ::
  "database option \<Rightarrow> 'a db_action \<Rightarrow> database option \<times> (http_exception + 'a)" where
  "with_pool db_pool body =
     (case db_pool of
        None \<Rightarrow> (None, Inl (HTTPException 503 ''Database not available''))
      | Some db \<Rightarrow>
          (case body db of
             (Inl (HTTP h), db') \<Rightarrow> (Some db', Inl h)
           | (Inl (Other msg), db') \<Rightarrow> (Some db', Inl (HTTPException 500 msg))
           | (Inr v, db') \<Rightarrow> (Some db', Inr v)))"

section \<open>Stories\<close>

subsection \<open>Request bodies and responses\<close>

record StoryCreate =
  sc_file_id :: string
  sc_caption :: "string option"
  sc_order_num :: int

record StoryUpdate =
  su_caption :: "string option"
  su_order_num :: "int option"
  su_is_active :: "bool option"

text \<open>The dictionary of \<^verbatim>\<open>GET /stories\<close>, one per active story.\<close>

record story_item =
  si_id :: int
  si_file_id :: string
  si_photo_url :: string
  si_caption :: "string option"
  si_slot_number :: "int option"
  si_created_at :: int
  si_is_active :: bool

text \<open>The dictionary \<^verbatim>\<open>create_story\<close> and \<^verbatim>\<open>update_story\<close> return.\<close>

record story_view =
  sv_id :: int
  sv_file_id :: string
  sv_caption :: "string option"
  sv_order_num :: int
  sv_created_at :: int
  sv_is_active :: bool

text \<open>The dictionary \<^verbatim>\<open>create_story_in_slot\<close> returns.\<close>

record slot_story_view =
  ss_id :: int
  ss_file_id :: string
  ss_caption :: "string option"
  ss_slot_number :: "int option"
  ss_created_at :: int
  ss_is_active :: bool

definition story_view_of :: "story_row \<Rightarrow> story_view" where
  "story_view_of row =
     \<lparr>sv_id = s_id row, sv_file_id = s_file_id row, sv_caption = s_caption row,
      sv_order_num = s_order_num row, sv_created_at = s_created_at row,
      sv_is_active = s_is_active row\<rparr>"

definition slot_story_view_of :: "story_row \<Rightarrow> slot_story_view" where
  "slot_story_view_of row =
     \<lparr>ss_id = s_id row, ss_file_id = s_file_id row, ss_caption = s_caption row,
      ss_slot_number = s_slot_number row, ss_created_at = s_created_at row,
      ss_is_active = s_is_active row\<rparr>"

subsection \<open>GET /stories\<close>



definition story_is_local_file :: "string \<Rightarrow> bool" where
  "story_is_local_file file_id =
     (startswith file_id ''/uploads/'' \<or> startswith file_id ''uploads/'')"

definition story_photo_url :: "string \<Rightarrow> string" where
  "story_photo_url file_id =
     (if story_is_local_file file_id
      then (if startswith file_id ''/'' then file_id else ''/'' @ file_id)
      else ''/photo/'' @ file_id)"

definition story_item_of :: "story_row \<Rightarrow> story_item" where
  "story_item_of row =
     \<lparr>si_id = s_id row, si_file_id = s_file_id row,
      si_photo_url = story_photo_url (s_file_id row), si_caption = s_caption row,
      si_slot_number = s_slot_number row, si_created_at = s_created_at row,
      si_is_active = s_is_active row\<rparr>"


subsection \<open>POST /stories\<close>

text \<open>
  \<^verbatim>\<open>INSERT INTO stories (file_id, caption, order_num, is_active) VALUES ($1, $2, $3, true)\<close>:
  \<open>slot_number\<close> takes the column default; \<open>now\<close> is the store's clock at the insert.
\<close>

definition insert_story ::
  "int \<Rightarrow> string \<Rightarrow> string option \<Rightarrow> int \<Rightarrow> database \<Rightarrow> story_row \<times> database" where
  "insert_story now file_id caption order_num db =
     (let row = \<lparr>s_id = stories_id_seq db, s_file_id = file_id, s_caption = caption,
                 s_slot_number = slot_number_default db, s_order_num = order_num,
                 s_created_at = now, s_is_active = True\<rparr>
      in (row, db\<lparr>stories := stories db @ [row], stories_id_seq := stories_id_seq db + 1\<rparr>))"

definition create_story ::
  "config \<Rightarrow> int \<Rightarrow> database option \<Rightarrow> StoryCreate \<Rightarrow> int
   \<Rightarrow> database option \<times> (http_exception + story_view)" where
  "create_story cfg now db_pool story user_id =
     (if \<not> is_admin cfg user_id
      then (db_pool, Inl (HTTPException 403 ''Access denied. Admins only.''))
      else with_pool db_pool
        (db_bind acquire (\<lambda>_.
         db_bind (run_statement
                    (InsertStory (sc_file_id story) (sc_caption story) (sc_order_num story))
                    (insert_story now (sc_file_id story) (sc_caption story) (sc_order_num story)))
           (\<lambda>row. db_return (story_view_of row)))))"

subsection \<open>PUT /stories/{story_id}\<close>

text \<open>
  The handler collects one assignment per field of the body that is not \<^verbatim>\<open>None\<close>,
  in the order caption, order_num, is_active, and raises 400 when there is none.
\<close>

definition build_updates :: "StoryUpdate \<Rightarrow> assignment list" where
  "build_updates story =
     (case su_caption story of None \<Rightarrow> [] | Some c \<Rightarrow> [SetCaption c]) @
     (case su_order_num story of None \<Rightarrow> [] | Some n \<Rightarrow> [SetOrderNum n]) @
     (case su_is_active story of None \<Rightarrow> [] | Some b \<Rightarrow> [SetIsActive b])"

fun apply_assignment :: "assignment \<Rightarrow> story_row \<Rightarrow> story_row" where
  "apply_assignment (SetCaption c) row = row\<lparr>s_caption := Some c\<rparr>"
| "apply_assignment (SetOrderNum n) row = row\<lparr>s_order_num := n\<rparr>"
| "apply_assignment (SetIsActive b) row = row\<lparr>s_is_active := b\<rparr>"

text \<open>
  \<^verbatim>\<open>UPDATE stories SET ... WHERE id = $n RETURNING ...\<close> with \<^verbatim>\<open>fetchrow\<close>: every
  row with that id is assigned; the first one comes back, or nothing.
\<close>

definition update_stories ::
  "assignment list \<Rightarrow> int \<Rightarrow> database \<Rightarrow> story_row option \<times> database" where
  "update_stories updates story_id db =
     (let rows = map (\<lambda>row. if s_id row = story_id then fold apply_assignment updates row else row)
                     (stories db)
      in (case filter (\<lambda>row. s_id row = story_id) rows of
            [] \<Rightarrow> (None, db\<lparr>stories := rows\<rparr>)
          | row # _ \<Rightarrow> (Some row, db\<lparr>stories := rows\<rparr>)))"

definition update_story ::
  "config \<Rightarrow> database option \<Rightarrow> int \<Rightarrow> StoryUpdate \<Rightarrow> int
   \<Rightarrow> database option \<times> (http_exception + story_view)" where
  "update_story cfg db_pool story_id story user_id =
     (if \<not> is_admin cfg user_id
      then (db_pool, Inl (HTTPException 403 ''Access denied. Admins only.''))
      else with_pool db_pool
        (db_bind acquire (\<lambda>_.
           let updates = build_updates story in
           if updates = [] then db_raise (HTTPException 400 ''No fields to update'')
           else
             db_bind (run_statement (UpdateStory updates story_id)
                        (update_stories updates story_id))
               (\<lambda>row. case row of
                    None \<Rightarrow> db_raise (HTTPException 404 ''Story not found'')
                  | Some r \<Rightarrow> db_return (story_view_of r)))))"

subsection \<open>DELETE /stories/{story_id}\<close>

text \<open>
  \<^verbatim>\<open>DELETE FROM stories WHERE id = $1\<close>; the status string \<^verbatim>\<open>"DELETE n"\<close> is
  modelled by the number \<open>n\<close> of deleted rows.
\<close>

definition delete_stories :: "int \<Rightarrow> database \<Rightarrow> nat \<times> database" where
  "delete_stories story_id db =
     (length (filter (\<lambda>row. s_id row = story_id) (stories db)),
      db\<lparr>stories := filter (\<lambda>row. s_id row \<noteq> story_id) (stories db)\<rparr>)"

definition delete_story ::
  "config \<Rightarrow> database option \<Rightarrow> int \<Rightarrow> int \<Rightarrow> database option \<times> (http_exception + string)" where
  "delete_story cfg db_pool story_id user_id =
     (if \<not> is_admin cfg user_id
      then (db_pool, Inl (HTTPException 403 ''Access denied. Admins only.''))
      else with_pool db_pool
        (db_bind acquire (\<lambda>_.
         db_bind (run_statement (DeleteStory story_id) (delete_stories story_id))
           (\<lambda>result. if result = 0 then db_raise (HTTPException 404 ''Story not found'')
                     else db_return ''Story deleted successfully''))))"

subsection \<open>POST /stories/create-in-slot\<close>

text \<open>
  \<^verbatim>\<open>UPDATE stories SET is_active = false WHERE slot_number = $1 AND is_active = true\<close>
\<close>

definition deactivate_slot :: "int \<Rightarrow> database \<Rightarrow> unit \<times> database" where
  "deactivate_slot slot_number db =
     ((), db\<lparr>stories :=
               map (\<lambda>row. if s_slot_number row = Some slot_number \<and> s_is_active row
                          then row\<lparr>s_is_active := False\<rparr> else row)
                   (stories db)\<rparr>)"

text \<open>
  \<^verbatim>\<open>INSERT INTO stories (file_id, caption, slot_number, is_active) VALUES ($1, $2, $3, true)\<close>:
  \<open>order_num\<close> takes its default 0.
\<close>

definition insert_story_in_slot ::
  "int \<Rightarrow> string \<Rightarrow> string option \<Rightarrow> int \<Rightarrow> database \<Rightarrow> story_row \<times> database" where
  "insert_story_in_slot now file_id caption slot_number db =
     (let row = \<lparr>s_id = stories_id_seq db, s_file_id = file_id, s_caption = caption,
                 s_slot_number = Some slot_number, s_order_num = 0,
                 s_created_at = now, s_is_active = True\<rparr>
      in (row, db\<lparr>stories := stories db @ [row], stories_id_seq := stories_id_seq db + 1\<rparr>))"

definition create_story_in_slot ::
  "config \<Rightarrow> int \<Rightarrow> database option \<Rightarrow> int \<Rightarrow> int \<Rightarrow> string \<Rightarrow> string option
   \<Rightarrow> database option \<times> (http_exception + slot_story_view)" where
  "create_story_in_slot cfg now db_pool user_id slot_number file_id caption =
     (if \<not> is_admin cfg user_id
      then (db_pool, Inl (HTTPException 403 ''Access denied''))
      else if slot_number \<notin> set [1, 2, 3]
      then (db_pool, Inl (HTTPException 400 ''Slot number must be 1, 2, or 3''))
      else with_pool db_pool
        (db_bind acquire (\<lambda>_.
         db_bind (run_statement (DeactivateSlot slot_number) (deactivate_slot slot_number)) (\<lambda>_.
         db_bind (run_statement (InsertStoryInSlot file_id caption slot_number)
                    (insert_story_in_slot now file_id caption slot_number))
           (\<lambda>row. db_return (slot_story_view_of row))))))"

text \<open>
  The handler awaits the store between its two statements and opens no transaction:
  statements of other requests can run after its UPDATE and before its INSERT.
  \<open>create_story_in_slot\<close> above is the run in which none does. The two parts of the
  handler, for the runs in which some do: everything up to and including the UPDATE, and
  the INSERT with the response. (\<open>create_story_in_slot_as_parts\<close> below shows that the
  second part run right after the first is \<open>create_story_in_slot\<close>.)
\<close>

definition create_story_in_slot_deactivate ::
  "config \<Rightarrow> database option \<Rightarrow> int \<Rightarrow> int \<Rightarrow> database option \<times> (http_exception + unit)" where
  "create_story_in_slot_deactivate cfg db_pool user_id slot_number =
     (if \<not> is_admin cfg user_id
      then (db_pool, Inl (HTTPException 403 ''Access denied''))
      else if slot_number \<notin> set [1, 2, 3]
      then (db_pool, Inl (HTTPException 400 ''Slot number must be 1, 2, or 3''))
      else with_pool db_pool
        (db_bind acquire (\<lambda>_.
         run_statement (DeactivateSlot slot_number) (deactivate_slot slot_number))))"

definition create_story_in_slot_insert ::
  "int \<Rightarrow> database option \<Rightarrow> int \<Rightarrow> string \<Rightarrow> string option
   \<Rightarrow> database option \<times> (http_exception + slot_story_view)" where
  "create_story_in_slot_insert now db_pool slot_number file_id caption =
     with_pool db_pool
       (db_bind (run_statement (InsertStoryInSlot file_id caption slot_number)
                   (insert_story_in_slot now file_id caption slot_number))
          (\<lambda>row. db_return (slot_story_view_of row)))"

section \<open>Posters\<close>

text \<open>The dictionary of \<^verbatim>\<open>GET /posters\<close> and \<^verbatim>\<open>GET /posters/latest\<close>.\<close>

record poster_item =
  pi_id :: int
  pi_file_id :: string
  pi_photo_url :: string
  pi_caption :: string
  pi_title :: string
  pi_subtitle :: string
  pi_ticket_url :: "string option"
  pi_venue_map_file_id :: "string option"
  pi_created_at :: int
  pi_is_active :: bool

text \<open>
  \<^verbatim>\<open>caption.split('\n', 1)\<close>: at most one split, at the first newline; a string
  without newline (the empty one too) gives the one-element list of itself.
\<close>

definition split_newline :: "string \<Rightarrow> string list" where
  "split_newline s =
     (case dropWhile (\<lambda>c. c \<noteq> CHR 0x0A) s of
        [] \<Rightarrow> [s]
      | _ # rest \<Rightarrow> [takeWhile (\<lambda>c. c \<noteq> CHR 0x0A) s, rest])"

text \<open>The fallback title of the source, an eleven-letter Cyrillic word, as UTF-8 bytes.\<close>

definition default_title :: string where
  "default_title =
     [CHR 0xD0, CHR 0x9C, CHR 0xD0, CHR 0xB5, CHR 0xD1, CHR 0x80, CHR 0xD0, CHR 0xBE,
      CHR 0xD0, CHR 0xBF, CHR 0xD1, CHR 0x80, CHR 0xD0, CHR 0xB8, CHR 0xD1, CHR 0x8F,
      CHR 0xD1, CHR 0x82, CHR 0xD0, CHR 0xB8, CHR 0xD0, CHR 0xB5]"

definition poster_is_local_file :: "string \<Rightarrow> bool" where
  "poster_is_local_file file_id =
     (startswith file_id ''/posters/'' \<or> startswith file_id ''posters/'')"

definition poster_photo_url :: "string \<Rightarrow> string" where
  "poster_photo_url file_id =
     (if poster_is_local_file file_id
      then (if startswith file_id ''/'' then file_id else ''/'' @ file_id)
      else ''/photo/'' @ file_id)"

definition poster_item_of :: "poster_row \<Rightarrow> poster_item" where
  "poster_item_of row =
     (let file_id = p_file_id row;
          caption = (case p_caption row of None \<Rightarrow> [] | Some c \<Rightarrow> c);
          lines = split_newline caption;
          title = (if lines \<noteq> [] then hd lines else default_title);
          subtitle = (if length lines > 1 then lines ! 1 else [])
      in \<lparr>pi_id = p_id row, pi_file_id = file_id, pi_photo_url = poster_photo_url file_id,
          pi_caption = caption, pi_title = title, pi_subtitle = subtitle,
          pi_ticket_url = p_ticket_url row, pi_venue_map_file_id = p_venue_map_file_id row,
          pi_created_at = p_created_at row, pi_is_active = p_is_active row\<rparr>)"

text \<open>
  \<^verbatim>\<open>WHERE is_active = true ORDER BY created_at DESC\<close>; rows with equal timestamps
  come in table order here; the store leaves their order open, and no property below
  depends on it.
\<close>

definition select_active_posters :: "database \<Rightarrow> poster_row list" where
  "select_active_posters db =
     sort_key (\<lambda>row. - p_created_at row) (filter p_is_active (posters db))"

definition get_posters ::
  "database option \<Rightarrow> database option \<times> (http_exception + poster_item list)" where
  "get_posters db_pool =
     with_pool db_pool
       (db_bind acquire (\<lambda>_.
        db_bind (run_statement SelectActivePosters (\<lambda>db. (select_active_posters db, db)))
          (\<lambda>rows. db_return (map poster_item_of rows))))"

text \<open>The same query with \<^verbatim>\<open>LIMIT 1\<close>, read by \<^verbatim>\<open>fetchrow\<close>.\<close>

definition select_latest_poster :: "database \<Rightarrow> poster_row option" where
  "select_latest_poster db =
     (case select_active_posters db of [] \<Rightarrow> None | row # _ \<Rightarrow> Some row)"

definition get_latest_poster ::
  "database option \<Rightarrow> database option \<times> (http_exception + poster_item)" where
  "get_latest_poster db_pool =
     with_pool db_pool
       (db_bind acquire (\<lambda>_.
        db_bind (run_statement SelectLatestPoster (\<lambda>db. (select_latest_poster db, db)))
          (\<lambda>row. case row of
               None \<Rightarrow> db_raise (HTTPException 404 ''No active posters found'')
             | Some r \<Rightarrow> db_return (poster_item_of r))))"

text \<open>
  \<^verbatim>\<open>SELECT ... FROM posters WHERE id = $1\<close>, read by \<^verbatim>\<open>fetchrow\<close>. The dictionary
  returned has the seven columns of the row, so the row stands for it.
\<close>

definition select_poster :: "int \<Rightarrow> database \<Rightarrow> poster_row option" where
  "select_poster poster_id db =
     (case filter (\<lambda>row. p_id row = poster_id) (posters db) of
        [] \<Rightarrow> None
      | row # _ \<Rightarrow> Some row)"

definition get_poster ::
  "database option \<Rightarrow> int \<Rightarrow> database option \<times> (http_exception + poster_row)" where
  "get_poster db_pool poster_id =
     with_pool db_pool
       (db_bind acquire (\<lambda>_.
        db_bind (run_statement (SelectPoster poster_id) (\<lambda>db. (select_poster poster_id db, db)))
          (\<lambda>row. case row of
               None \<Rightarrow> db_raise (HTTPException 404 ''Poster not found'')
             | Some r \<Rightarrow> db_return r)))"

section \<open>The photo proxy\<close>

text \<open>
  The foreign platform is an HTTP client: a function from the requested URL to what
  \<^verbatim>\<open>client.get\<close> does, raise (\<open>Inl\<close> the message) or return a response. Of a response
  the handler reads the status code, the content and \<^verbatim>\<open>.json()\<close>, which raises or
  gives the file data; of the file data it reads the truth of \<^verbatim>\<open>.get("ok")\<close> and
  \<^verbatim>\<open>["result"]["file_path"]\<close>, which raises or gives the path.
\<close>

record file_data =
  fd_ok :: bool
  fd_file_path :: "string + string"

record http_response =
  r_status_code :: int
  r_content :: string
  r_json :: "string + file_data"

type_synonym http_client = "string \<Rightarrow> string + http_response"

record streaming_response =
  sr_body :: string
  sr_media_type :: string
  sr_cache_control :: string

definition file_info_url :: "config \<Rightarrow> string \<Rightarrow> string" where
  "file_info_url cfg file_id =
     ''https://api.telegram.org/bot'' @ BOT_TOKEN cfg @ ''/getFile?file_id='' @ file_id"

definition file_url :: "config \<Rightarrow> string \<Rightarrow> string" where
  "file_url cfg file_path =
     ''https://api.telegram.org/file/bot'' @ BOT_TOKEN cfg @ ''/'' @ file_path"

text \<open>
  \<open>get_photo\<close> returns the list of URLs it has requested, in order, besides its
  response.
\<close>

definition get_photo ::
  "config \<Rightarrow> http_client \<Rightarrow> string \<Rightarrow> string list \<times> (http_exception + streaming_response)" where
  "get_photo cfg client file_id =
     (if BOT_TOKEN cfg = [] then ([], Inl (HTTPException 503 ''Bot token not configured''))
      else
        (case client (file_info_url cfg file_id) of
           Inl msg \<Rightarrow> ([file_info_url cfg file_id], Inl (HTTPException 500 msg))
         | Inr file_response \<Rightarrow>
             (case r_json file_response of
                Inl msg \<Rightarrow> ([file_info_url cfg file_id], Inl (HTTPException 500 msg))
              | Inr data \<Rightarrow>
                  if \<not> fd_ok data
                  then ([file_info_url cfg file_id], Inl (HTTPException 404 ''File not found''))
                  else
                    (case fd_file_path data of
                       Inl msg \<Rightarrow> ([file_info_url cfg file_id], Inl (HTTPException 500 msg))
                     | Inr file_path \<Rightarrow>
                         (case client (file_url cfg file_path) of
                            Inl msg \<Rightarrow>
                              ([file_info_url cfg file_id, file_url cfg file_path],
                               Inl (HTTPException 500 msg))
                          | Inr photo_response \<Rightarrow>
                              if r_status_code photo_response \<noteq> 200
                              then ([file_info_url cfg file_id, file_url cfg file_path],
                                    Inl (HTTPException 404 ''Failed to download photo''))
                              else ([file_info_url cfg file_id, file_url cfg file_path],
                                    Inr \<lparr>sr_body = r_content photo_response,
                                         sr_media_type = ''image/jpeg'',
                                         sr_cache_control = ''public, max-age=86400''\<rparr>))))))"

section \<open>Upload intake\<close>

record UploadFile =
  uf_filename :: "string option"
  uf_content_type :: "string option"
  uf_file :: string

text \<open>
  The file system under the working directory: the directories that exist and the
  contents of the files, by relative path.
\<close>

record filesystem =
  dirs :: "string set"
  files :: "string \<Rightarrow> string option"

text \<open>
  What the handler takes from outside: the string of the fresh \<^verbatim>\<open>uuid.uuid4()\<close>, the
  library function \<^verbatim>\<open>Path(name).suffix\<close>, and whether one of the three file-system
  calls raises: \<^verbatim>\<open>mkdir\<close>, \<^verbatim>\<open>open\<close>, or \<^verbatim>\<open>copyfileobj\<close> after writing some bytes.
\<close>

datatype io_fault = MkdirRaises string | OpenRaises string | CopyRaises string string

record upload_env =
  uuid4 :: string
  path_suffix :: "string \<Rightarrow> string"
  io :: "io_fault option"

record upload_result =
  ur_success :: bool
  ur_photo_url :: string
  ur_filename :: string

text \<open>
  \<^verbatim>\<open>file_extension = Path(file.filename or "image.jpg").suffix\<close> and
  \<^verbatim>\<open>unique_filename = f"{uuid.uuid4()}{file_extension}"\<close>
\<close>

definition file_extension :: "upload_env \<Rightarrow> UploadFile \<Rightarrow> string" where
  "file_extension env file =
     path_suffix env
       (case uf_filename file of
          None \<Rightarrow> ''image.jpg''
        | Some n \<Rightarrow> if n = [] then ''image.jpg'' else n)"

definition unique_filename :: "upload_env \<Rightarrow> UploadFile \<Rightarrow> string" where
  "unique_filename env file = uuid4 env @ file_extension env file"

definition upload_story_photo ::
  "config \<Rightarrow> upload_env \<Rightarrow> filesystem \<Rightarrow> int \<Rightarrow> UploadFile
   \<Rightarrow> filesystem \<times> (http_exception + upload_result)" where
  "upload_story_photo cfg env fs user_id file =
     (if \<not> is_admin cfg user_id then (fs, Inl (HTTPException 403 ''Access denied''))
      else if (case uf_content_type file of
                 None \<Rightarrow> True
               | Some ct \<Rightarrow> ct = [] \<or> \<not> startswith ct ''image/'')
      then (fs, Inl (HTTPException 400 ''File must be an image''))
      else
        (let upload_dir = ''uploads/stories'';
             fs1 = fs\<lparr>dirs := dirs fs \<union> {''uploads'', upload_dir}\<rparr>;
             file_path = upload_dir @ ''/'' @ unique_filename env file;
             relative_path = ''/uploads/stories/'' @ unique_filename env file
         in case io env of
              Some (MkdirRaises msg) \<Rightarrow> (fs, Inl (HTTPException 500 msg))
            | Some (OpenRaises msg) \<Rightarrow> (fs1, Inl (HTTPException 500 msg))
            | Some (CopyRaises msg written) \<Rightarrow>
                (fs1\<lparr>files := (files fs1)(file_path \<mapsto> written)\<rparr>, Inl (HTTPException 500 msg))
            | None \<Rightarrow>
                (fs1\<lparr>files := (files fs1)(file_path \<mapsto> uf_file file)\<rparr>,
                 Inr \<lparr>ur_success = True, ur_photo_url = relative_path,
                      ur_filename = unique_filename env file\<rparr>)))"

section \<open>Vocabulary of the properties\<close>

text \<open>The kind of error a response signals, if it is an error.\<close>

definition response_kind :: "http_exception + 'a \<Rightarrow> error_kind option" where
  "response_kind r = (case r of Inl e \<Rightarrow> Some (signals e) | Inr _ \<Rightarrow> None)"

text \<open>
  A configuration with the two admin identities the source defaults to, an empty database
  whose \<open>slot_number\<close> defaults to NULL, and an empty file system, for concrete runs.
\<close>

definition cfg0 :: config where
  "cfg0 = \<lparr>ADMIN_IDS = {825042510, 8160172817}, BOT_TOKEN = ''123:abc''\<rparr>"

definition db0 :: database where
  "db0 = \<lparr>posters = [], stories = [], stories_id_seq = 1, slot_number_default = None,
          executed = [], faults = []\<rparr>"

definition fs0 :: filesystem where
  "fs0 = \<lparr>dirs = {}, files = Map.empty\<rparr>"

text \<open>
  The partial update as the specification words it: each field present in the partial
  replaces the row's, each omitted field keeps its prior value; and the partial with no
  field present.
\<close>

definition patch_row :: "StoryUpdate \<Rightarrow> story_row \<Rightarrow> story_row" where
  "patch_row patch row =
     row\<lparr>s_caption := (case su_caption patch of None \<Rightarrow> s_caption row | Some c \<Rightarrow> Some c),
         s_order_num := (case su_order_num patch of None \<Rightarrow> s_order_num row | Some n \<Rightarrow> n),
         s_is_active := (case su_is_active patch of None \<Rightarrow> s_is_active row | Some b \<Rightarrow> b)\<rparr>"

definition empty_patch :: "StoryUpdate \<Rightarrow> bool" where
  "empty_patch patch =
     (su_caption patch = None \<and> su_order_num patch = None \<and> su_is_active patch = None)"

text \<open>The stories table behind a pool (no rows when there is no pool).\<close>

definition stories_of :: "database option \<Rightarrow> story_row list" where
  "stories_of db_pool = (case db_pool of None \<Rightarrow> [] | Some db \<Rightarrow> stories db)"

text \<open>
  A database with an active story in slot 1, an inactive one in slot 2, an active and an
  inactive poster, for concrete runs.
\<close>

definition db1 :: database where
  "db1 = \<lparr>posters =
            [\<lparr>p_id = 1, p_file_id = ''/posters/poster_1.jpg'', p_caption = Some ''Party'',
              p_ticket_url = None, p_venue_map_file_id = None, p_created_at = 10,
              p_is_active = True\<rparr>,
             \<lparr>p_id = 2, p_file_id = ''AgACAgIAAx'', p_caption = None,
              p_ticket_url = None, p_venue_map_file_id = None, p_created_at = 20,
              p_is_active = False\<rparr>],
          stories =
            [\<lparr>s_id = 1, s_file_id = ''/uploads/stories/a.jpg'', s_caption = Some ''first'',
              s_slot_number = Some 1, s_order_num = 0, s_created_at = 10, s_is_active = True\<rparr>,
             \<lparr>s_id = 2, s_file_id = ''AgACAgIAAy'', s_caption = None,
              s_slot_number = Some 2, s_order_num = 1, s_created_at = 20, s_is_active = False\<rparr>],
          stories_id_seq = 3, slot_number_default = None, executed = [], faults = []\<rparr>"

text \<open>
  The local prefixes each reader is configured with, and a reference normalised to
  exactly one leading slash: its leading slashes dropped, one put in front.
\<close>

definition poster_local_prefixes :: "string list" where
  "poster_local_prefixes = [''/posters/'', ''posters/'']"

definition story_local_prefixes :: "string list" where
  "story_local_prefixes = [''/uploads/'', ''uploads/'']"

text \<open>
  The one set of local prefixes the specification gives the photo resolver, shared by
  all readers.
\<close>

definition shared_local_prefixes :: "string list" where
  "shared_local_prefixes = [''/posters/'', ''posters/'', ''/uploads/'', ''uploads/'']"

definition single_leading_slash :: "string \<Rightarrow> string" where
  "single_leading_slash ref = ''/'' @ dropWhile (\<lambda>c. c = CHR ''/'') ref"

text \<open>
  Three HTTP clients for concrete runs against \<open>cfg0\<close>: the platform resolves the
  identifier \<^verbatim>\<open>AgACAgIAAx\<close> to a path and serves the bytes; it resolves the
  identifier but answers the download with status 404; it does not know the identifier.
\<close>

definition resolve_answer :: "string \<Rightarrow> http_response" where
  "resolve_answer path =
     \<lparr>r_status_code = 200, r_content = [],
      r_json = Inr \<lparr>fd_ok = True, fd_file_path = Inr path\<rparr>\<rparr>"

definition client_serving :: http_client where
  "client_serving url =
     (if url = file_info_url cfg0 ''AgACAgIAAx'' then Inr (resolve_answer ''photos/file_1.jpg'')
      else if url = file_url cfg0 ''photos/file_1.jpg''
      then Inr \<lparr>r_status_code = 200, r_content = ''JFIF'', r_json = Inl ''Expecting value''\<rparr>
      else Inl ''connection refused'')"

definition client_download_fails :: http_client where
  "client_download_fails url =
     (if url = file_info_url cfg0 ''AgACAgIAAx'' then Inr (resolve_answer ''photos/file_1.jpg'')
      else Inr \<lparr>r_status_code = 404, r_content = ''Not Found'', r_json = Inl ''Expecting value''\<rparr>)"

text \<open>An upload by the browser: a JPEG with its name and declared type.\<close>

definition upload0 :: UploadFile where
  "upload0 = \<lparr>uf_filename = Some ''photo.jpg'', uf_content_type = Some ''image/jpeg'',
              uf_file = ''JFIF''\<rparr>"

definition env0 :: upload_env where
  "env0 = \<lparr>uuid4 = ''3f2b8c1e-7d4a-4e0b-9c55-1a2b3c4d5e6f'', path_suffix = (\<lambda>name. ''.jpg''),
            io = None\<rparr>"

text \<open>
  The slot invariant of the stories table: for each slot 1, 2, 3, at most one row of
  the slot is active.
\<close>

definition active_in_slot :: "int \<Rightarrow> story_row list \<Rightarrow> story_row list" where
  "active_in_slot s rows = filter (\<lambda>row. s_slot_number row = Some s \<and> s_is_active row) rows"

definition slot_invariant :: "story_row list \<Rightarrow> bool" where
  "slot_invariant rows = (\<forall>s \<in> {1, 2, 3}. length (active_in_slot s rows) \<le> 1)"

text \<open>
  What \<open>create_story\<close>, which leaves \<open>slot_number\<close> to its column default, needs of
  the store: the default is none of the slots 1, 2, 3, or a slot without active row.
\<close>

definition default_slot_free :: "database option \<Rightarrow> bool" where
  "default_slot_free db_pool =
     (case db_pool of
        None \<Rightarrow> True
      | Some db \<Rightarrow>
          (\<forall>s \<in> {1, 2, 3}. slot_number_default db = Some s \<longrightarrow>
                           active_in_slot s (stories db) = []))"

text \<open>
  No slot 1, 2, 3 holds two rows that are active or have the given id: setting the rows
  of that id active then leaves at most one active row in each slot.
\<close>

definition activation_keeps_slots :: "int \<Rightarrow> story_row list \<Rightarrow> bool" where
  "activation_keeps_slots story_id rows =
     (\<forall>s \<in> {1, 2, 3}.
        length (filter (\<lambda>row. s_slot_number row = Some s
                              \<and> (s_id row = story_id \<or> s_is_active row)) rows) \<le> 1)"

text \<open>
  A database action started in a state satisfying \<open>P\<close> ends in a state satisfying
  \<open>Q\<close> of its result when it returns, and \<open>E\<close> when it raises.
\<close>

definition db_triple ::
  "(database \<Rightarrow> bool) \<Rightarrow> 'a db_action \<Rightarrow> ('a \<Rightarrow> database \<Rightarrow> bool) \<Rightarrow> (database \<Rightarrow> bool) \<Rightarrow> bool" where
  "db_triple P m Q E =
     (\<forall>db. P db \<longrightarrow> (case m db of (Inl _, db') \<Rightarrow> E db' | (Inr x, db') \<Rightarrow> Q x db'))"

text \<open>
  A concrete run for the invariant: from the empty database an admin rotates slot 1
  twice, which leaves story 1 inactive and story 2 active in slot 1.
\<close>

definition pool_rotated_twice :: "database option" where
  "pool_rotated_twice =
     fst (create_story_in_slot cfg0 20
            (fst (create_story_in_slot cfg0 10 (Some db0) 825042510 1 ''first'' None))
            825042510 1 ''second'' None)"

text \<open>
  Two rotations of slot 1 by an admin on the empty database whose statements interleave:
  both UPDATEs run, then both INSERTs.
\<close>

definition pool_interleaved :: "database option" where
  "pool_interleaved =
     fst (create_story_in_slot_insert 20
       (fst (create_story_in_slot_insert 10
         (fst (create_story_in_slot_deactivate cfg0
           (fst (create_story_in_slot_deactivate cfg0 (Some db0) 825042510 1))
           825042510 1))
         1 ''first'' None))
       1 ''second'' None)"






section \<open>Properties\<close>

lemma driver_step_no_faults: "faults db = [] \<Longrightarrow> driver_step db = (Inr (), db)"
  by (simp add: driver_step_def)

lemma acquire_no_faults: "faults db = [] \<Longrightarrow> acquire db = (Inr (), db)"
  by (simp add: acquire_def driver_step_no_faults)

lemma run_statement_no_faults:
  "faults db = [] \<Longrightarrow>
   run_statement stmt sem db =
     (Inr (fst (sem db)), (snd (sem db))\<lparr>executed := executed (snd (sem db)) @ [stmt]\<rparr>)"
  by (simp add: run_statement_def db_bind_def driver_step_no_faults split: prod.splits)

text \<open>
  C4. Every mutating handler called with an identity outside the admin set returns
  status 403 (PermissionDenied) and hands back the database pool, respectively the file
  system, exactly as it got it: no statement is recorded, no fault consumed, no row
  inserted, no file written.
\<close>

theorem non_admin_rejected_without_effect:
  assumes "\<not> is_admin cfg user_id"
  shows "create_story cfg now db_pool story user_id =
           (db_pool, Inl (HTTPException 403 ''Access denied. Admins only.''))
       \<and> update_story cfg db_pool story_id patch user_id =
           (db_pool, Inl (HTTPException 403 ''Access denied. Admins only.''))
       \<and> delete_story cfg db_pool story_id user_id =
           (db_pool, Inl (HTTPException 403 ''Access denied. Admins only.''))
       \<and> create_story_in_slot cfg now db_pool user_id slot_number file_id caption =
           (db_pool, Inl (HTTPException 403 ''Access denied''))
       \<and> upload_story_photo cfg env fs user_id file =
           (fs, Inl (HTTPException 403 ''Access denied''))
       \<and> response_kind (snd (create_story cfg now db_pool story user_id)) = Some PermissionDenied
       \<and> response_kind (snd (update_story cfg db_pool story_id patch user_id)) = Some PermissionDenied
       \<and> response_kind (snd (delete_story cfg db_pool story_id user_id)) = Some PermissionDenied
       \<and> response_kind (snd (create_story_in_slot cfg now db_pool user_id slot_number file_id caption))
           = Some PermissionDenied
       \<and> response_kind (snd (upload_story_photo cfg env fs user_id file)) = Some PermissionDenied"
  using assms
  by (simp add: create_story_def update_story_def delete_story_def create_story_in_slot_def
      upload_story_photo_def response_kind_def signals_def)

theorem non_admin_rejected_without_effect_witness:
  "\<not> is_admin cfg0 7
   \<and> create_story cfg0 100 (Some db0) \<lparr>sc_file_id = ''ref'', sc_caption = Some ''cap'', sc_order_num = 0\<rparr> 7
       = (Some db0, Inl (HTTPException 403 ''Access denied. Admins only.''))
   \<and> stories db0 = []"
  using non_admin_rejected_without_effect [of cfg0 7 100 "Some db0"
      "\<lparr>sc_file_id = ''ref'', sc_caption = Some ''cap'', sc_order_num = 0\<rparr>"]
  by (simp add: is_admin_def cfg0_def db0_def)

subsection \<open>Partial updates\<close>

lemma build_updates_empty: "(build_updates patch = []) = empty_patch patch"
  by (simp add: build_updates_def empty_patch_def split: option.splits)

lemma fold_build_updates: "fold apply_assignment (build_updates patch) row = patch_row patch row"
  by (simp add: build_updates_def patch_row_def split: option.splits)

lemma patch_row_id: "s_id (patch_row patch row) = s_id row"
  by (simp add: patch_row_def)

lemma filter_patched:
  "filter (\<lambda>row. s_id row = i) (map (\<lambda>row. if s_id row = i then patch_row patch row else row) rows)
     = map (patch_row patch) (filter (\<lambda>row. s_id row = i) rows)"
  by (induction rows) (simp_all add: patch_row_id)

lemma map_other_ids:
  "i \<notin> s_id ` set rows \<Longrightarrow>
   map (\<lambda>row. if s_id row = i then patch_row patch row else row) rows = rows"
  by (induction rows) auto

lemma find_as_filter: "find P xs = (case filter P xs of [] \<Rightarrow> None | x # _ \<Rightarrow> Some x)"
  by (induction xs) simp_all

lemma update_stories_eq:
  "update_stories (build_updates patch) i db =
     (map_option (patch_row patch) (find (\<lambda>row. s_id row = i) (stories db)),
      db\<lparr>stories := map (\<lambda>row. if s_id row = i then patch_row patch row else row) (stories db)\<rparr>)"
  by (simp add: update_stories_def Let_def fold_build_updates filter_patched find_as_filter
      split: list.splits cong: if_cong)

text \<open>
  C5. For an admin caller on an available store whose driver raises nothing:
  with no field present \<open>update_story\<close> returns status 400 (InvalidArgument) and runs
  no statement; otherwise it runs one UPDATE that rewrites every row with the given id
  by \<open>patch_row\<close> (present fields assigned, omitted fields and all other columns
  kept) and leaves every other row as it is, and returns the first rewritten row, or
  status 404 (NotFound) when no row has the id.
\<close>

theorem update_story_applies_exactly_the_patch:
  assumes "is_admin cfg user_id" and "faults db = []"
  shows "update_story cfg (Some db) story_id patch user_id =
           (if empty_patch patch
            then (Some db, Inl (HTTPException 400 ''No fields to update''))
            else (Some (db\<lparr>stories := map (\<lambda>row. if s_id row = story_id
                                                  then patch_row patch row else row) (stories db),
                            executed := executed db @ [UpdateStory (build_updates patch) story_id]\<rparr>),
                  case find (\<lambda>row. s_id row = story_id) (stories db) of
                    None \<Rightarrow> Inl (HTTPException 404 ''Story not found'')
                  | Some row \<Rightarrow> Inr (story_view_of (patch_row patch row))))
       \<and> (empty_patch patch \<longrightarrow>
            response_kind (snd (update_story cfg (Some db) story_id patch user_id))
              = Some InvalidArgument)
       \<and> (\<not> empty_patch patch \<and> story_id \<notin> s_id ` set (stories db) \<longrightarrow>
            response_kind (snd (update_story cfg (Some db) story_id patch user_id))
              = Some NotFound
            \<and> stories_of (fst (update_story cfg (Some db) story_id patch user_id)) = stories db)
       \<and> (su_caption patch = None \<longrightarrow> s_caption (patch_row patch row) = s_caption row)
       \<and> (su_order_num patch = None \<longrightarrow> s_order_num (patch_row patch row) = s_order_num row)
       \<and> (su_is_active patch = None \<longrightarrow> s_is_active (patch_row patch row) = s_is_active row)
       \<and> s_id (patch_row patch row) = s_id row
       \<and> s_file_id (patch_row patch row) = s_file_id row
       \<and> s_slot_number (patch_row patch row) = s_slot_number row
       \<and> s_created_at (patch_row patch row) = s_created_at row"
proof -
  have run: "update_story cfg (Some db) story_id patch user_id =
           (if empty_patch patch
            then (Some db, Inl (HTTPException 400 ''No fields to update''))
            else (Some (db\<lparr>stories := map (\<lambda>row. if s_id row = story_id
                                                  then patch_row patch row else row) (stories db),
                            executed := executed db @ [UpdateStory (build_updates patch) story_id]\<rparr>),
                  case find (\<lambda>row. s_id row = story_id) (stories db) of
                    None \<Rightarrow> Inl (HTTPException 404 ''Story not found'')
                  | Some row \<Rightarrow> Inr (story_view_of (patch_row patch row))))"
    using assms
    by (simp add: update_story_def with_pool_def db_bind_def Let_def acquire_no_faults
        run_statement_no_faults update_stories_eq build_updates_empty db_raise_def db_return_def
        split: option.splits)
  have absent: "find (\<lambda>row. s_id row = story_id) (stories db) = None"
    if "story_id \<notin> s_id ` set (stories db)"
    using that by (auto simp: find_None_iff)
  have same: "map (\<lambda>row. if s_id row = story_id then patch_row patch row else row) (stories db)
                = stories db"
    if "story_id \<notin> s_id ` set (stories db)"
    using that by (simp add: map_other_ids)
  show ?thesis
    unfolding run
    by (auto simp: response_kind_def signals_def absent same stories_of_def patch_row_def)
qed

theorem update_story_applies_exactly_the_patch_witness:
  "is_admin cfg0 825042510 \<and> faults db1 = []
   \<and> update_story cfg0 (Some db1) 1
        \<lparr>su_caption = None, su_order_num = Some 5, su_is_active = None\<rparr> 825042510
     = (Some (db1\<lparr>stories :=
                    [\<lparr>s_id = 1, s_file_id = ''/uploads/stories/a.jpg'', s_caption = Some ''first'',
                      s_slot_number = Some 1, s_order_num = 5, s_created_at = 10,
                      s_is_active = True\<rparr>,
                     \<lparr>s_id = 2, s_file_id = ''AgACAgIAAy'', s_caption = None,
                      s_slot_number = Some 2, s_order_num = 1, s_created_at = 20,
                      s_is_active = False\<rparr>],
                  executed := [UpdateStory [SetOrderNum 5] 1]\<rparr>),
        Inr \<lparr>sv_id = 1, sv_file_id = ''/uploads/stories/a.jpg'', sv_caption = Some ''first'',
             sv_order_num = 5, sv_created_at = 10, sv_is_active = True\<rparr>)"
  using update_story_applies_exactly_the_patch [of cfg0 825042510 db1 1
      "\<lparr>su_caption = None, su_order_num = Some 5, su_is_active = None\<rparr>"]
  by (simp add: is_admin_def cfg0_def db1_def empty_patch_def patch_row_def story_view_of_def
      build_updates_def)

subsection \<open>Captions\<close>

lemma split_newline_nonempty: "split_newline s \<noteq> []"
  by (simp add: split_newline_def split: list.splits)

lemma split_newline_without: "CHR 0x0A \<notin> set s \<Longrightarrow> split_newline s = [s]"
proof -
  assume "CHR 0x0A \<notin> set s"
  then have d: "dropWhile (\<lambda>c. c \<noteq> CHR 0x0A) s = []"
    by (simp add: dropWhile_eq_Nil_conv) blast
  show ?thesis unfolding split_newline_def d by simp
qed

lemma split_newline_at_first:
  "CHR 0x0A \<notin> set a \<Longrightarrow> split_newline (a @ CHR 0x0A # b) = [a, b]"
proof -
  assume a: "CHR 0x0A \<notin> set a"
  then have all: "\<And>x. x \<in> set a \<Longrightarrow> x \<noteq> CHR 0x0A"
    by blast
  have d: "dropWhile (\<lambda>c. c \<noteq> CHR 0x0A) (a @ CHR 0x0A # b) = CHR 0x0A # b"
    using all by (simp add: dropWhile_append2)
  have t: "takeWhile (\<lambda>c. c \<noteq> CHR 0x0A) (a @ CHR 0x0A # b) = a"
    using all by (simp add: takeWhile_append2)
  show ?thesis unfolding split_newline_def d t by simp
qed

text \<open>
  What holds of the caption rule of C3: a caption \<open>a\<close>, newline, \<open>b\<close> with no newline
  in \<open>a\<close> gives title \<open>a\<close> and subtitle \<open>b\<close>; a caption without newline is the title
  and the subtitle is empty.
\<close>

lemma poster_item_of_lines:
  "split_newline (case p_caption row of None \<Rightarrow> [] | Some c \<Rightarrow> c) = t # rest \<Longrightarrow>
   pi_title (poster_item_of row) = t
   \<and> pi_subtitle (poster_item_of row) = (case rest of [] \<Rightarrow> [] | s # _ \<Rightarrow> s)"
  by (simp add: poster_item_of_def Let_def split: list.splits)

lemma poster_title_subtitle_with_newline:
  assumes "CHR 0x0A \<notin> set a" and "p_caption row = Some (a @ CHR 0x0A # b)"
  shows "pi_title (poster_item_of row) = a \<and> pi_subtitle (poster_item_of row) = b"
proof -
  have "split_newline (case p_caption row of None \<Rightarrow> [] | Some c \<Rightarrow> c) = [a, b]"
    unfolding assms(2) option.case by (rule split_newline_at_first [OF assms(1)])
  from poster_item_of_lines [OF this] show ?thesis by simp
qed

lemma poster_title_subtitle_without_newline:
  assumes "CHR 0x0A \<notin> set c" and "p_caption row = Some c"
  shows "pi_title (poster_item_of row) = c \<and> pi_subtitle (poster_item_of row) = []"
proof -
  have "split_newline (case p_caption row of None \<Rightarrow> [] | Some c \<Rightarrow> c) = [c]"
    unfolding assms(2) option.case by (rule split_newline_without [OF assms(1)])
  from poster_item_of_lines [OF this] show ?thesis by simp
qed

text \<open>
  C3. The source guards the fallback title by \<^verbatim>\<open>lines[0] if lines else ...\<close>, but
  \<^verbatim>\<open>split\<close> never returns the empty list: a poster without caption gets the empty
  title, not the fallback.
\<close>

theorem absent_caption_gives_empty_title:
  "pi_title (poster_item_of
      \<lparr>p_id = 2, p_file_id = ''AgACAgIAAx'', p_caption = None, p_ticket_url = None,
       p_venue_map_file_id = None, p_created_at = 20, p_is_active = True\<rparr>) = []
   \<and> pi_title (poster_item_of
      \<lparr>p_id = 2, p_file_id = ''AgACAgIAAx'', p_caption = Some [], p_ticket_url = None,
       p_venue_map_file_id = None, p_created_at = 20, p_is_active = True\<rparr>) = []
   \<and> default_title \<noteq> []"
  by (simp add: poster_item_of_def Let_def split_newline_def default_title_def)

subsection \<open>Photo URLs\<close>

lemma startswith_iff: "startswith s p = (\<exists>r. s = p @ r)"
proof
  assume "startswith s p"
  then have "s = p @ drop (length p) s"
    by (metis append_take_drop_id startswith_def)
  then show "\<exists>r. s = p @ r" ..
next
  assume "\<exists>r. s = p @ r"
  then show "startswith s p" by (auto simp: startswith_def)
qed

lemma poster_local_cases:
  "poster_is_local_file ref = ((\<exists>r. ref = ''/posters/'' @ r) \<or> (\<exists>r. ref = ''posters/'' @ r))"
  by (simp only: poster_is_local_file_def startswith_iff)

lemma story_local_cases:
  "story_is_local_file ref = ((\<exists>r. ref = ''/uploads/'' @ r) \<or> (\<exists>r. ref = ''uploads/'' @ r))"
  by (simp only: story_is_local_file_def startswith_iff)

lemma poster_photo_url_local:
  "poster_is_local_file ref \<Longrightarrow> poster_photo_url ref = single_leading_slash ref"
  by (auto simp: poster_local_cases poster_photo_url_def single_leading_slash_def startswith_def)

lemma story_photo_url_local:
  "story_is_local_file ref \<Longrightarrow> story_photo_url ref = single_leading_slash ref"
  by (auto simp: story_local_cases story_photo_url_def single_leading_slash_def startswith_def)

lemma single_leading_slash_shape:
  "startswith (single_leading_slash ref) ''/'' \<and> \<not> startswith (single_leading_slash ref) ''//''"
proof -
  define d where "d = dropWhile (\<lambda>c. c = CHR ''/'') ref"
  have "d \<noteq> [] \<Longrightarrow> hd d \<noteq> CHR ''/''"
    unfolding d_def by (rule hd_dropWhile)
  then have "startswith (''/'' @ d) ''/'' \<and> \<not> startswith (''/'' @ d) ''//''"
    by (cases d) (simp_all add: startswith_def)
  then show ?thesis
    unfolding single_leading_slash_def d_def .
qed

text \<open>
  C6, as stated for one shared set of local prefixes, fails: a story reference starting
  with \<^verbatim>\<open>/posters/\<close> and a poster reference starting with \<^verbatim>\<open>uploads/\<close> start
  with a prefix of that set, and both are sent to the proxy path.
\<close>

theorem shared_prefix_resolved_as_foreign:
  "''/posters/'' \<in> set shared_local_prefixes
   \<and> startswith ''/posters/poster_1.jpg'' ''/posters/''
   \<and> si_photo_url (story_item_of
        \<lparr>s_id = 3, s_file_id = ''/posters/poster_1.jpg'', s_caption = None, s_slot_number = Some 1,
         s_order_num = 0, s_created_at = 30, s_is_active = True\<rparr>)
       = ''/photo//posters/poster_1.jpg''
   \<and> ''uploads/'' \<in> set shared_local_prefixes
   \<and> startswith ''uploads/stories/a.jpg'' ''uploads/''
   \<and> pi_photo_url (poster_item_of
        \<lparr>p_id = 3, p_file_id = ''uploads/stories/a.jpg'', p_caption = None, p_ticket_url = None,
         p_venue_map_file_id = None, p_created_at = 30, p_is_active = True\<rparr>)
       = ''/photo/uploads/stories/a.jpg''"
  by (simp add: shared_local_prefixes_def startswith_def story_item_of_def story_photo_url_def
      story_is_local_file_def poster_item_of_def Let_def poster_photo_url_def
      poster_is_local_file_def)

text \<open>
  C6, amended. Each reader classifies a reference as local exactly when it starts with
  one of that reader's own local prefixes. The photo URL of a local reference is the
  reference with exactly one leading slash (whether it came with a slash or without),
  that of any other reference is the proxy path \<^verbatim>\<open>/photo/\<close> followed by the
  reference.
\<close>

theorem photo_url_by_classification:
  "poster_is_local_file ref = (\<exists>p \<in> set poster_local_prefixes. startswith ref p)
   \<and> story_is_local_file ref = (\<exists>p \<in> set story_local_prefixes. startswith ref p)
   \<and> pi_photo_url (poster_item_of prow) =
       (if poster_is_local_file (p_file_id prow) then single_leading_slash (p_file_id prow)
        else ''/photo/'' @ p_file_id prow)
   \<and> si_photo_url (story_item_of srow) =
       (if story_is_local_file (s_file_id srow) then single_leading_slash (s_file_id srow)
        else ''/photo/'' @ s_file_id srow)
   \<and> startswith (single_leading_slash ref) ''/''
   \<and> \<not> startswith (single_leading_slash ref) ''//''"
proof -
  have "pi_photo_url (poster_item_of prow) = poster_photo_url (p_file_id prow)"
    by (simp add: poster_item_of_def Let_def)
  moreover have "si_photo_url (story_item_of srow) = story_photo_url (s_file_id srow)"
    by (simp add: story_item_of_def)
  moreover have "\<not> poster_is_local_file r \<Longrightarrow> poster_photo_url r = ''/photo/'' @ r" for r
    by (simp add: poster_photo_url_def)
  moreover have "\<not> story_is_local_file r \<Longrightarrow> story_photo_url r = ''/photo/'' @ r" for r
    by (simp add: story_photo_url_def)
  ultimately show ?thesis
    using single_leading_slash_shape [of ref]
    by (simp add: poster_photo_url_local story_photo_url_local poster_local_prefixes_def
        story_local_prefixes_def poster_is_local_file_def story_is_local_file_def)
qed

theorem photo_url_by_classification_witness:
  "poster_is_local_file ''posters/poster_1.jpg''
   \<and> pi_photo_url (poster_item_of
        \<lparr>p_id = 1, p_file_id = ''posters/poster_1.jpg'', p_caption = None, p_ticket_url = None,
         p_venue_map_file_id = None, p_created_at = 10, p_is_active = True\<rparr>)
       = ''/posters/poster_1.jpg''
   \<and> \<not> story_is_local_file ''AgACAgIAAy''
   \<and> si_photo_url (story_item_of
        \<lparr>s_id = 2, s_file_id = ''AgACAgIAAy'', s_caption = None, s_slot_number = Some 2,
         s_order_num = 1, s_created_at = 20, s_is_active = True\<rparr>)
       = ''/photo/AgACAgIAAy''"
  using photo_url_by_classification [of "''posters/poster_1.jpg''"
      "\<lparr>p_id = 1, p_file_id = ''posters/poster_1.jpg'', p_caption = None, p_ticket_url = None,
        p_venue_map_file_id = None, p_created_at = 10, p_is_active = True\<rparr>"
      "\<lparr>s_id = 2, s_file_id = ''AgACAgIAAy'', s_caption = None, s_slot_number = Some 2,
        s_order_num = 1, s_created_at = 20, s_is_active = True\<rparr>"]
  by (simp add: poster_is_local_file_def story_is_local_file_def startswith_def
      single_leading_slash_def)

text \<open>
  C10. The two readers do not share their prefixes. A reference starting with
  \<^verbatim>\<open>/posters/\<close> or \<^verbatim>\<open>posters/\<close> is local for the poster readers and foreign for
  the story listing, which sends it to the proxy path; a reference starting with
  \<^verbatim>\<open>/uploads/\<close> or \<^verbatim>\<open>uploads/\<close> is local for the story listing and foreign for
  the poster readers; and no other reference is local for either.
\<close>

theorem classification_is_per_endpoint:
  "(poster_is_local_file ref \<longleftrightarrow> startswith ref ''/posters/'' \<or> startswith ref ''posters/'')
   \<and> (story_is_local_file ref \<longleftrightarrow> startswith ref ''/uploads/'' \<or> startswith ref ''uploads/'')
   \<and> (poster_is_local_file ref \<longrightarrow>
        \<not> story_is_local_file ref \<and> story_photo_url ref = ''/photo/'' @ ref
        \<and> poster_photo_url ref \<noteq> ''/photo/'' @ ref)
   \<and> (story_is_local_file ref \<longrightarrow>
        \<not> poster_is_local_file ref \<and> poster_photo_url ref = ''/photo/'' @ ref
        \<and> story_photo_url ref \<noteq> ''/photo/'' @ ref)"
proof -
  have ps: "\<not> story_is_local_file ref" if "poster_is_local_file ref"
    using that by (auto simp: poster_local_cases story_is_local_file_def startswith_def)
  have pu: "poster_photo_url ref \<noteq> ''/photo/'' @ ref" if "poster_is_local_file ref"
    using that by (auto simp: poster_local_cases poster_photo_url_def startswith_def)
  have su: "story_photo_url ref \<noteq> ''/photo/'' @ ref" if "story_is_local_file ref"
    using that by (auto simp: story_local_cases story_photo_url_def startswith_def)
  show ?thesis
    using ps pu su
    by (auto simp: poster_is_local_file_def story_is_local_file_def story_photo_url_def
        poster_photo_url_def)
qed

theorem classification_is_per_endpoint_witness:
  "poster_is_local_file ''/posters/poster_1.jpg''
   \<and> poster_photo_url ''/posters/poster_1.jpg'' = ''/posters/poster_1.jpg''
   \<and> si_photo_url (story_item_of
        \<lparr>s_id = 3, s_file_id = ''/posters/poster_1.jpg'', s_caption = None, s_slot_number = Some 1,
         s_order_num = 0, s_created_at = 30, s_is_active = True\<rparr>)
       = ''/photo//posters/poster_1.jpg''"
  using classification_is_per_endpoint [of "''/posters/poster_1.jpg''"]
  by (simp add: poster_is_local_file_def startswith_def story_item_of_def poster_photo_url_def)

subsection \<open>The photo proxy\<close>

text \<open>
  C7, as stated, fails: with the credential configured and the resolve call answered
  with a file path, a download answered with status 404 makes \<open>get_photo\<close> signal
  NotFound instead of streaming bytes.
\<close>

theorem failed_download_is_not_streamed:
  "BOT_TOKEN cfg0 \<noteq> []
   \<and> client_download_fails (file_info_url cfg0 ''AgACAgIAAx'') = Inr (resolve_answer ''photos/file_1.jpg'')
   \<and> get_photo cfg0 client_download_fails ''AgACAgIAAx'' =
       ([file_info_url cfg0 ''AgACAgIAAx'', file_url cfg0 ''photos/file_1.jpg''],
        Inl (HTTPException 404 ''Failed to download photo''))"
  by (simp add: get_photo_def client_download_fails_def resolve_answer_def cfg0_def
      file_info_url_def file_url_def)

text \<open>
  C7, amended. Without credential \<open>get_photo\<close> returns status 503 (Unavailable) and
  requests nothing. With it, the first request is the one resolve call and at most one
  request follows; an answer that is not ok gives status 404 (NotFound) and no download;
  an ok answer with a file path is followed by exactly one download call, whose bytes
  are streamed back as \<^verbatim>\<open>image/jpeg\<close> with \<^verbatim>\<open>Cache-Control: public, max-age=86400\<close>
  (24 hours) when its status is 200, and which gives status 404 (NotFound) otherwise.
\<close>

theorem get_photo_outcomes:
  "(BOT_TOKEN cfg = [] \<longrightarrow>
      get_photo cfg client file_id = ([], Inl (HTTPException 503 ''Bot token not configured''))
      \<and> response_kind (snd (get_photo cfg client file_id)) = Some Unavailable)
   \<and> (BOT_TOKEN cfg \<noteq> [] \<longrightarrow>
      (fst (get_photo cfg client file_id) = [file_info_url cfg file_id]
       \<or> (\<exists>path. fst (get_photo cfg client file_id)
                    = [file_info_url cfg file_id, file_url cfg path])))
   \<and> (BOT_TOKEN cfg \<noteq> [] \<and> client (file_info_url cfg file_id) = Inr file_response
       \<and> r_json file_response = Inr data \<and> \<not> fd_ok data \<longrightarrow>
      get_photo cfg client file_id
        = ([file_info_url cfg file_id], Inl (HTTPException 404 ''File not found''))
      \<and> response_kind (snd (get_photo cfg client file_id)) = Some NotFound)
   \<and> (BOT_TOKEN cfg \<noteq> [] \<and> client (file_info_url cfg file_id) = Inr file_response
       \<and> r_json file_response = Inr data \<and> fd_ok data \<and> fd_file_path data = Inr path
       \<and> client (file_url cfg path) = Inr photo_response \<longrightarrow>
      fst (get_photo cfg client file_id) = [file_info_url cfg file_id, file_url cfg path]
      \<and> (r_status_code photo_response = 200 \<longrightarrow>
           snd (get_photo cfg client file_id)
             = Inr \<lparr>sr_body = r_content photo_response, sr_media_type = ''image/jpeg'',
                    sr_cache_control = ''public, max-age=86400''\<rparr>)
      \<and> (r_status_code photo_response \<noteq> 200 \<longrightarrow>
           snd (get_photo cfg client file_id)
             = Inl (HTTPException 404 ''Failed to download photo'')
           \<and> response_kind (snd (get_photo cfg client file_id)) = Some NotFound))"
  by (auto simp: get_photo_def response_kind_def signals_def split: sum.splits)

theorem get_photo_outcomes_witness:
  "BOT_TOKEN cfg0 \<noteq> []
   \<and> client_serving (file_info_url cfg0 ''AgACAgIAAx'') = Inr (resolve_answer ''photos/file_1.jpg'')
   \<and> get_photo cfg0 client_serving ''AgACAgIAAx'' =
       ([file_info_url cfg0 ''AgACAgIAAx'', file_url cfg0 ''photos/file_1.jpg''],
        Inr \<lparr>sr_body = ''JFIF'', sr_media_type = ''image/jpeg'',
             sr_cache_control = ''public, max-age=86400''\<rparr>)
   \<and> get_photo (cfg0\<lparr>BOT_TOKEN := []\<rparr>) client_serving ''AgACAgIAAx''
       = ([], Inl (HTTPException 503 ''Bot token not configured''))"
  using get_photo_outcomes [of cfg0 client_serving "''AgACAgIAAx''"
      "resolve_answer ''photos/file_1.jpg''" "\<lparr>fd_ok = True, fd_file_path = Inr ''photos/file_1.jpg''\<rparr>"
      "''photos/file_1.jpg''"
      "\<lparr>r_status_code = 200, r_content = ''JFIF'', r_json = Inl ''Expecting value''\<rparr>"]
    get_photo_outcomes [of "cfg0\<lparr>BOT_TOKEN := []\<rparr>" client_serving "''AgACAgIAAx''"]
  by (simp add: client_serving_def resolve_answer_def cfg0_def file_info_url_def file_url_def
      prod_eq_iff)

subsection \<open>Upload intake\<close>

text \<open>
  C8. For an admin: an upload whose declared content type is absent or does not start
  with \<^verbatim>\<open>image/\<close> returns status 400 (InvalidArgument) and leaves the file system as
  it was. Any other upload, when no file-system call raises, stores exactly the payload
  in \<^verbatim>\<open>uploads/stories\<close> under the name made of the fresh UUID and the extension,
  changes no other file, and returns that name behind \<^verbatim>\<open>/uploads/stories/\<close>; the
  story listing classifies the returned path as local and resolves it to itself. Two
  uploads with different UUIDs (of equal length) get different names.
\<close>

theorem upload_returns_local_reference:
  assumes "is_admin cfg user_id"
  shows "((case uf_content_type file of None \<Rightarrow> True
           | Some ct \<Rightarrow> \<not> startswith ct ''image/'') \<longrightarrow>
            upload_story_photo cfg env fs user_id file
              = (fs, Inl (HTTPException 400 ''File must be an image''))
            \<and> response_kind (snd (upload_story_photo cfg env fs user_id file))
                = Some InvalidArgument)
       \<and> ((case uf_content_type file of None \<Rightarrow> False
            | Some ct \<Rightarrow> startswith ct ''image/'') \<and> io env = None \<longrightarrow>
            snd (upload_story_photo cfg env fs user_id file)
              = Inr \<lparr>ur_success = True,
                     ur_photo_url = ''/uploads/stories/'' @ unique_filename env file,
                     ur_filename = unique_filename env file\<rparr>
            \<and> files (fst (upload_story_photo cfg env fs user_id file))
                = (files fs)(''uploads/stories/'' @ unique_filename env file \<mapsto> uf_file file)
            \<and> ''uploads/stories'' \<in> dirs (fst (upload_story_photo cfg env fs user_id file)))
       \<and> story_is_local_file (''/uploads/stories/'' @ unique_filename env file)
       \<and> (s_file_id row = ''/uploads/stories/'' @ unique_filename env file \<longrightarrow>
            si_photo_url (story_item_of row) = ''/uploads/stories/'' @ unique_filename env file)
       \<and> (length (uuid4 env) = length (uuid4 env') \<and> uuid4 env \<noteq> uuid4 env' \<longrightarrow>
            unique_filename env file \<noteq> unique_filename env' file')"
proof -
  have local: "story_is_local_file (''/uploads/stories/'' @ n)" for n
    by (simp add: story_is_local_file_def startswith_def)
  have url: "story_photo_url (''/uploads/stories/'' @ n) = ''/uploads/stories/'' @ n" for n
    by (simp add: story_photo_url_def story_is_local_file_def startswith_def)
  have reject: "upload_story_photo cfg env fs user_id file
                  = (fs, Inl (HTTPException 400 ''File must be an image''))"
    if "case uf_content_type file of None \<Rightarrow> True | Some ct \<Rightarrow> \<not> startswith ct ''image/''"
    using that assms by (auto simp: upload_story_photo_def split: option.splits)
  have accept: "upload_story_photo cfg env fs user_id file
      = (fs\<lparr>dirs := dirs fs \<union> {''uploads'', ''uploads/stories''},
            files := (files fs)(''uploads/stories/'' @ unique_filename env file \<mapsto> uf_file file)\<rparr>,
         Inr \<lparr>ur_success = True, ur_photo_url = ''/uploads/stories/'' @ unique_filename env file,
              ur_filename = unique_filename env file\<rparr>)"
    if "case uf_content_type file of None \<Rightarrow> False | Some ct \<Rightarrow> startswith ct ''image/''"
      and "io env = None"
    using that assms
    by (auto simp: upload_story_photo_def Let_def startswith_def split: option.splits)
  have differ: "unique_filename env file \<noteq> unique_filename env' file'"
    if "length (uuid4 env) = length (uuid4 env')" and "uuid4 env \<noteq> uuid4 env'"
    using that by (simp add: unique_filename_def)
  show ?thesis
    using local [of "unique_filename env file"] url [of "unique_filename env file"] differ
    by (auto simp: reject accept response_kind_def signals_def story_item_of_def)
qed

theorem upload_returns_local_reference_witness:
  "is_admin cfg0 825042510
   \<and> snd (upload_story_photo cfg0 env0 fs0 825042510 upload0)
       = Inr \<lparr>ur_success = True,
              ur_photo_url = ''/uploads/stories/3f2b8c1e-7d4a-4e0b-9c55-1a2b3c4d5e6f.jpg'',
              ur_filename = ''3f2b8c1e-7d4a-4e0b-9c55-1a2b3c4d5e6f.jpg''\<rparr>
   \<and> files (fst (upload_story_photo cfg0 env0 fs0 825042510 upload0))
       ''uploads/stories/3f2b8c1e-7d4a-4e0b-9c55-1a2b3c4d5e6f.jpg'' = Some ''JFIF''
   \<and> upload_story_photo cfg0 env0 fs0 825042510 (upload0\<lparr>uf_content_type := Some ''text/html''\<rparr>)
       = (fs0, Inl (HTTPException 400 ''File must be an image''))"
  using upload_returns_local_reference [of cfg0 825042510 upload0 env0 fs0]
    upload_returns_local_reference [of cfg0 825042510 "upload0\<lparr>uf_content_type := Some ''text/html''\<rparr>"
      env0 fs0]
  by (simp add: is_admin_def cfg0_def upload0_def env0_def unique_filename_def file_extension_def
      startswith_def)

subsection \<open>Reading posters\<close>

lemma get_poster_no_faults:
  "faults db = [] \<Longrightarrow>
   get_poster (Some db) poster_id =
     (Some (db\<lparr>executed := executed db @ [SelectPoster poster_id]\<rparr>),
      case select_poster poster_id db of
        None \<Rightarrow> Inl (HTTPException 404 ''Poster not found'')
      | Some r \<Rightarrow> Inr r)"
  by (simp add: get_poster_def with_pool_def db_bind_def acquire_no_faults
      run_statement_no_faults db_raise_def db_return_def split: option.splits)

lemma get_posters_no_faults:
  "faults db = [] \<Longrightarrow>
   get_posters (Some db) =
     (Some (db\<lparr>executed := executed db @ [SelectActivePosters]\<rparr>),
      Inr (map poster_item_of (select_active_posters db)))"
  by (simp add: get_posters_def with_pool_def db_bind_def acquire_no_faults
      run_statement_no_faults db_return_def)

lemma get_latest_poster_no_faults:
  "faults db = [] \<Longrightarrow>
   get_latest_poster (Some db) =
     (Some (db\<lparr>executed := executed db @ [SelectLatestPoster]\<rparr>),
      case select_latest_poster db of
        None \<Rightarrow> Inl (HTTPException 404 ''No active posters found'')
      | Some r \<Rightarrow> Inr (poster_item_of r))"
  by (simp add: get_latest_poster_def with_pool_def db_bind_def acquire_no_faults
      run_statement_no_faults db_raise_def db_return_def split: option.splits)

lemma filter_unique_key:
  "distinct (map f xs) \<Longrightarrow> x \<in> set xs \<Longrightarrow> filter (\<lambda>y. f y = f x) xs = [x]"
proof (induction xs)
  case Nil
  then show ?case by simp
next
  case (Cons a xs)
  show ?case
  proof (cases "a = x")
    case True
    from Cons.prems(1) have "f a \<notin> f ` set xs" by simp
    with True have "\<forall>y \<in> set xs. f y \<noteq> f x" by (metis imageI)
    then have "filter (\<lambda>y. f y = f x) xs = []" by (simp add: filter_empty_conv)
    with True show ?thesis by simp
  next
    case False
    with Cons.prems have in_rest: "x \<in> set xs" by simp
    from Cons.prems(1) have "f a \<notin> f ` set xs" by simp
    with in_rest have "f a \<noteq> f x" by (metis imageI)
    moreover from Cons.prems(1) have "distinct (map f xs)" by simp
    ultimately show ?thesis using Cons.IH in_rest by simp
  qed
qed

lemma select_poster_by_id:
  "distinct (map p_id (posters db)) \<Longrightarrow> row \<in> set (posters db) \<Longrightarrow>
   select_poster (p_id row) db = Some row"
  by (simp add: select_poster_def filter_unique_key)

lemma select_poster_none:
  "(select_poster poster_id db = None) = (poster_id \<notin> p_id ` set (posters db))"
proof -
  have "(select_poster poster_id db = None)
          = (filter (\<lambda>row. p_id row = poster_id) (posters db) = [])"
    by (simp add: select_poster_def split: list.splits)
  also have "\<dots> = (\<forall>row \<in> set (posters db). p_id row \<noteq> poster_id)"
    by (simp add: filter_empty_conv)
  also have "\<dots> = (poster_id \<notin> p_id ` set (posters db))"
    by auto
  finally show ?thesis .
qed

lemma set_select_active_posters:
  "set (select_active_posters db) = {r \<in> set (posters db). p_is_active r}"
  by (auto simp: select_active_posters_def)

lemma select_latest_poster_active:
  "select_latest_poster db = Some r \<Longrightarrow> r \<in> set (posters db) \<and> p_is_active r"
proof -
  assume "select_latest_poster db = Some r"
  then have "r \<in> set (select_active_posters db)"
    by (auto simp: select_latest_poster_def split: list.splits)
  then show ?thesis by (simp add: set_select_active_posters)
qed

lemma pi_id_poster_item_of: "pi_id (poster_item_of r) = p_id r"
  by (simp add: poster_item_of_def Let_def)

lemma same_id_same_row:
  "distinct (map p_id rows) \<Longrightarrow> r \<in> set rows \<Longrightarrow> r' \<in> set rows \<Longrightarrow> p_id r = p_id r' \<Longrightarrow> r = r'"
  by (meson distinct_map inj_onD)

text \<open>
  C9. On an available store whose driver raises nothing and whose poster ids are unique,
  \<open>get_poster\<close> returns every row of the table by its id, active or not; an inactive
  row is in neither the listing of \<open>get_posters\<close> nor the answer of
  \<open>get_latest_poster\<close>; and \<open>get_poster\<close> signals NotFound exactly when the table
  has no row with the id.
\<close>

theorem get_poster_ignores_is_active:
  assumes "faults db = []" and "distinct (map p_id (posters db))"
  shows "(row \<in> set (posters db) \<longrightarrow> snd (get_poster (Some db) (p_id row)) = Inr row)
       \<and> (row \<in> set (posters db) \<and> \<not> p_is_active row \<longrightarrow>
            (\<exists>items. snd (get_posters (Some db)) = Inr items \<and> p_id row \<notin> pi_id ` set items)
            \<and> (\<forall>item. snd (get_latest_poster (Some db)) = Inr item \<longrightarrow> pi_id item \<noteq> p_id row))
       \<and> ((response_kind (snd (get_poster (Some db) poster_id)) = Some NotFound)
            = (poster_id \<notin> p_id ` set (posters db)))"
proof (intro conjI impI)
  assume "row \<in> set (posters db)"
  then show "snd (get_poster (Some db) (p_id row)) = Inr row"
    using assms by (simp add: get_poster_no_faults select_poster_by_id)
next
  assume inactive: "row \<in> set (posters db) \<and> \<not> p_is_active row"
  have unlisted: "p_id r \<noteq> p_id row" if "r \<in> set (posters db)" and "p_is_active r" for r
    using that inactive same_id_same_row [OF assms(2), of r row] by auto
  then have "\<forall>r \<in> set (select_active_posters db). pi_id (poster_item_of r) \<noteq> p_id row"
    by (simp add: set_select_active_posters pi_id_poster_item_of)
  then have "p_id row \<notin> pi_id ` set (map poster_item_of (select_active_posters db))"
    by (simp add: image_iff) metis
  then show "\<exists>items. snd (get_posters (Some db)) = Inr items \<and> p_id row \<notin> pi_id ` set items"
    using assms(1) by (simp add: get_posters_no_faults)
  show "\<forall>item. snd (get_latest_poster (Some db)) = Inr item \<longrightarrow> pi_id item \<noteq> p_id row"
  proof (intro allI impI)
    fix item
    assume "snd (get_latest_poster (Some db)) = Inr item"
    then obtain r where r: "select_latest_poster db = Some r" and item: "item = poster_item_of r"
      using assms(1) by (auto simp: get_latest_poster_no_faults split: option.splits)
    from select_latest_poster_active [OF r] have "p_id r \<noteq> p_id row"
      using unlisted by blast
    then show "pi_id item \<noteq> p_id row"
      by (simp add: item pi_id_poster_item_of)
  qed
next
  show "(response_kind (snd (get_poster (Some db) poster_id)) = Some NotFound)
          = (poster_id \<notin> p_id ` set (posters db))"
    using assms(1) select_poster_none [of poster_id db]
    by (auto simp: get_poster_no_faults response_kind_def signals_def split: option.splits)
qed

theorem get_poster_ignores_is_active_witness:
  "faults db1 = [] \<and> distinct (map p_id (posters db1))
   \<and> snd (get_poster (Some db1) 2)
       = Inr \<lparr>p_id = 2, p_file_id = ''AgACAgIAAx'', p_caption = None, p_ticket_url = None,
              p_venue_map_file_id = None, p_created_at = 20, p_is_active = False\<rparr>
   \<and> (\<exists>items. snd (get_posters (Some db1)) = Inr items \<and> 2 \<notin> pi_id ` set items)
   \<and> response_kind (snd (get_poster (Some db1) 3)) = Some NotFound"
  using get_poster_ignores_is_active [of db1
      "\<lparr>p_id = 2, p_file_id = ''AgACAgIAAx'', p_caption = None, p_ticket_url = None,
        p_venue_map_file_id = None, p_created_at = 20, p_is_active = False\<rparr>" 3]
  by (simp add: db1_def)

subsection \<open>Rules for database actions\<close>

lemma triple_bind:
  "db_triple P m Q E \<Longrightarrow> (\<And>x. db_triple (Q x) (k x) R E) \<Longrightarrow> db_triple P (db_bind m k) R E"
  unfolding db_triple_def db_bind_def
  by (fastforce split: prod.splits sum.splits)

lemma triple_return: "(\<And>db. P db \<Longrightarrow> Q x db) \<Longrightarrow> db_triple P (db_return x) Q E"
  by (simp add: db_triple_def db_return_def)

lemma triple_raise: "(\<And>db. P db \<Longrightarrow> E db) \<Longrightarrow> db_triple P (db_raise e) Q E"
  by (simp add: db_triple_def db_raise_def)

lemma triple_driver_step:
  "(\<And>rows. p rows \<Longrightarrow> e rows) \<Longrightarrow>
   db_triple (\<lambda>db. p (stories db)) driver_step (\<lambda>_ db. p (stories db)) (\<lambda>db. e (stories db))"
  by (simp add: db_triple_def driver_step_def split: list.splits option.splits)

lemma triple_acquire:
  "(\<And>rows. p rows \<Longrightarrow> e rows) \<Longrightarrow>
   db_triple (\<lambda>db. p (stories db)) acquire (\<lambda>_ db. p (stories db)) (\<lambda>db. e (stories db))"
  unfolding acquire_def by (rule triple_driver_step)

lemma triple_run_statement:
  assumes "\<And>rows. p rows \<Longrightarrow> e rows"
    and "\<And>db. p (stories db) \<Longrightarrow> q (fst (sem db)) (stories (snd (sem db)))"
  shows "db_triple (\<lambda>db. p (stories db)) (run_statement stmt sem)
           (\<lambda>x db. q x (stories db)) (\<lambda>db. e (stories db))"
  unfolding run_statement_def
proof (rule triple_bind [OF triple_driver_step])
  show "\<And>rows. p rows \<Longrightarrow> e rows" by (rule assms(1))
  show "db_triple (\<lambda>db. p (stories db))
          (\<lambda>db. case sem db of (r, db') \<Rightarrow> (Inr r, db'\<lparr>executed := executed db' @ [stmt]\<rparr>))
          (\<lambda>x db. q x (stories db)) (\<lambda>db. e (stories db))" for x :: unit
    unfolding db_triple_def
  proof (intro allI impI)
    fix db :: database
    assume "p (stories db)"
    from assms(2) [OF this] show "case (case sem db of (r, db') \<Rightarrow>
              (Inr r, db'\<lparr>executed := executed db' @ [stmt]\<rparr>)) of
            (Inl _, db') \<Rightarrow> e (stories db') | (Inr x, db') \<Rightarrow> q x (stories db')"
      by (cases "sem db") simp
  qed
qed

lemma with_pool_triple:
  assumes "db_triple (\<lambda>db. p (stories db)) body (\<lambda>x db. q (stories db)) (\<lambda>db. q (stories db))"
    and "p (stories_of db_pool)" and "q []"
  shows "q (stories_of (fst (with_pool db_pool body)))"
proof (cases db_pool)
  case None
  then show ?thesis using assms(3) by (simp add: with_pool_def stories_of_def)
next
  case (Some db)
  with assms(2) have "p (stories db)" by (simp add: stories_of_def)
  with assms(1) have "case body db of (Inl _, db') \<Rightarrow> q (stories db') | (Inr x, db') \<Rightarrow> q (stories db')"
    by (simp add: db_triple_def)
  with Some show ?thesis
    by (auto simp: with_pool_def stories_of_def split: prod.splits sum.splits exn.splits)
qed

subsection \<open>The slot invariant\<close>

lemma slot_invariant_Nil: "slot_invariant []"
  by (simp add: slot_invariant_def active_in_slot_def)

lemma length_filter_map_le:
  "(\<And>x. x \<in> set xs \<Longrightarrow> P (f x) \<Longrightarrow> P x) \<Longrightarrow> length (filter P (map f xs)) \<le> length (filter P xs)"
  by (induction xs) auto

lemma slot_invariant_map:
  assumes "slot_invariant rows"
    and "\<And>row. s_slot_number (f row) = s_slot_number row"
    and "\<And>row. s_is_active (f row) \<Longrightarrow> s_is_active row"
  shows "slot_invariant (map f rows)"
  unfolding slot_invariant_def active_in_slot_def
proof
  fix s :: int
  assume "s \<in> {1, 2, 3}"
  with assms(1) have "length (filter (\<lambda>row. s_slot_number row = Some s \<and> s_is_active row) rows) \<le> 1"
    unfolding slot_invariant_def active_in_slot_def by blast
  moreover have "length (filter (\<lambda>row. s_slot_number row = Some s \<and> s_is_active row) (map f rows))
                  \<le> length (filter (\<lambda>row. s_slot_number row = Some s \<and> s_is_active row) rows)"
    by (rule length_filter_map_le) (simp add: assms(2) assms(3))
  ultimately show "length (filter (\<lambda>row. s_slot_number row = Some s \<and> s_is_active row) (map f rows)) \<le> 1"
    by simp
qed

lemma slot_invariant_filter: "slot_invariant rows \<Longrightarrow> slot_invariant (filter P rows)"
proof -
  assume inv: "slot_invariant rows"
  have "length (filter Q (filter P rows)) \<le> length (filter Q rows)" for Q :: "story_row \<Rightarrow> bool"
    by (induction rows) auto
  with inv show ?thesis
    unfolding slot_invariant_def active_in_slot_def by (meson order_trans)
qed

lemma slot_invariant_append_outside:
  "slot_invariant rows \<Longrightarrow> s_slot_number row \<notin> {Some 1, Some 2, Some 3} \<Longrightarrow>
   slot_invariant (rows @ [row])"
  by (auto simp: slot_invariant_def active_in_slot_def)

lemma slot_invariant_append_free:
  "slot_invariant rows \<Longrightarrow> s_slot_number row = Some s \<Longrightarrow> active_in_slot s rows = [] \<Longrightarrow>
   slot_invariant (rows @ [row])"
  by (auto simp: slot_invariant_def active_in_slot_def)

lemma deactivate_slot_rows:
  "stories (snd (deactivate_slot s db)) =
     map (\<lambda>row. if s_slot_number row = Some s \<and> s_is_active row
                then row\<lparr>s_is_active := False\<rparr> else row) (stories db)"
  by (simp add: deactivate_slot_def)

lemma deactivate_slot_frees:
  "active_in_slot s (stories (snd (deactivate_slot s db))) = []"
  by (auto simp: deactivate_slot_rows active_in_slot_def filter_empty_conv)

lemma deactivate_slot_invariant:
  "slot_invariant (stories db) \<Longrightarrow> slot_invariant (stories (snd (deactivate_slot s db)))"
  unfolding deactivate_slot_rows by (rule slot_invariant_map) (auto split: if_splits)

lemma patch_keeps_slot: "s_slot_number (fold apply_assignment (build_updates patch) row) = s_slot_number row"
  by (simp add: fold_build_updates patch_row_def)

lemma patch_keeps_inactive:
  "su_is_active patch \<noteq> Some True \<Longrightarrow>
   s_is_active (fold apply_assignment (build_updates patch) row) \<Longrightarrow> s_is_active row"
  by (cases "su_is_active patch") (auto simp: fold_build_updates patch_row_def)

lemma length_filter_map_bound:
  "(\<And>x. x \<in> set xs \<Longrightarrow> P (f x) \<Longrightarrow> Q x) \<Longrightarrow> length (filter P (map f xs)) \<le> length (filter Q xs)"
  by (induction xs) auto

lemma update_rows_keep_slots:
  assumes "activation_keeps_slots i rows"
  shows "slot_invariant
     (map (\<lambda>row. if s_id row = i then fold apply_assignment (build_updates patch) row else row) rows)"
  unfolding slot_invariant_def active_in_slot_def
proof
  fix s :: int
  assume s: "s \<in> {1, 2, 3}"
  have "length (filter (\<lambda>row. s_slot_number row = Some s \<and> s_is_active row)
          (map (\<lambda>row. if s_id row = i then fold apply_assignment (build_updates patch) row else row)
               rows))
        \<le> length (filter (\<lambda>row. s_slot_number row = Some s \<and> (s_id row = i \<or> s_is_active row)) rows)"
    by (rule length_filter_map_bound) (auto simp: patch_keeps_slot split: if_splits)
  moreover from assms s
  have "length (filter (\<lambda>row. s_slot_number row = Some s \<and> (s_id row = i \<or> s_is_active row)) rows) \<le> 1"
    unfolding activation_keeps_slots_def by blast
  ultimately show "length (filter (\<lambda>row. s_slot_number row = Some s \<and> s_is_active row)
          (map (\<lambda>row. if s_id row = i then fold apply_assignment (build_updates patch) row else row)
               rows)) \<le> 1"
    by simp
qed

lemma update_stories_invariant:
  assumes "su_is_active patch \<noteq> Some True \<or> activation_keeps_slots i (stories db)"
    and "slot_invariant (stories db)"
  shows "slot_invariant (stories (snd (update_stories (build_updates patch) i db)))"
proof -
  have rows: "stories (snd (update_stories (build_updates patch) i db))
          = map (\<lambda>row. if s_id row = i then fold apply_assignment (build_updates patch) row else row)
                (stories db)"
    by (simp add: update_stories_def Let_def split: list.splits)
  from assms(1) show ?thesis
  proof
    assume inactive: "su_is_active patch \<noteq> Some True"
    have "slot_invariant
        (map (\<lambda>row. if s_id row = i then fold apply_assignment (build_updates patch) row else row)
             (stories db))"
      using assms(2)
      by (rule slot_invariant_map)
        (auto simp: patch_keeps_slot split: if_splits dest: patch_keeps_inactive [OF inactive])
    with rows show ?thesis by simp
  next
    assume "activation_keeps_slots i (stories db)"
    from update_rows_keep_slots [OF this] rows show ?thesis by simp
  qed
qed

lemma insert_story_in_slot_invariant:
  assumes "slot_invariant (stories db) \<and> active_in_slot s (stories db) = []"
  shows "slot_invariant (stories (snd (insert_story_in_slot now f c s db)))"
proof -
  have "stories (snd (insert_story_in_slot now f c s db)) =
          stories db @ [\<lparr>s_id = stories_id_seq db, s_file_id = f, s_caption = c,
                          s_slot_number = Some s, s_order_num = 0, s_created_at = now,
                          s_is_active = True\<rparr>]"
    by (simp add: insert_story_in_slot_def Let_def)
  then show ?thesis
    using assms slot_invariant_append_free [of "stories db" _ s] by simp
qed

lemma delete_stories_invariant:
  "slot_invariant (stories db) \<Longrightarrow> slot_invariant (stories (snd (delete_stories i db)))"
  by (simp add: delete_stories_def slot_invariant_filter)

lemma create_story_in_slot_body:
  "db_triple (\<lambda>db. slot_invariant (stories db))
     (db_bind acquire (\<lambda>_.
      db_bind (run_statement (DeactivateSlot s) (deactivate_slot s)) (\<lambda>_.
      db_bind (run_statement (InsertStoryInSlot f c s) (insert_story_in_slot now f c s))
        (\<lambda>row. db_return (slot_story_view_of row)))))
     (\<lambda>_ db. slot_invariant (stories db)) (\<lambda>db. slot_invariant (stories db))"
proof (rule triple_bind)
  show "db_triple (\<lambda>db. slot_invariant (stories db)) acquire
          (\<lambda>_ db. slot_invariant (stories db)) (\<lambda>db. slot_invariant (stories db))"
    by (rule triple_acquire)
next
  fix u :: unit
  show "db_triple (\<lambda>db. slot_invariant (stories db))
          (db_bind (run_statement (DeactivateSlot s) (deactivate_slot s)) (\<lambda>_.
           db_bind (run_statement (InsertStoryInSlot f c s) (insert_story_in_slot now f c s))
             (\<lambda>row. db_return (slot_story_view_of row))))
          (\<lambda>_ db. slot_invariant (stories db)) (\<lambda>db. slot_invariant (stories db))"
  proof (rule triple_bind)
    show "db_triple (\<lambda>db. slot_invariant (stories db))
            (run_statement (DeactivateSlot s) (deactivate_slot s))
            (\<lambda>_ db. slot_invariant (stories db) \<and> active_in_slot s (stories db) = [])
            (\<lambda>db. slot_invariant (stories db))"
      by (rule triple_run_statement
            [where p = slot_invariant and e = slot_invariant
               and q = "\<lambda>_ rows. slot_invariant rows \<and> active_in_slot s rows = []"])
         (simp_all add: deactivate_slot_invariant deactivate_slot_frees)
  next
    fix v :: unit
    show "db_triple (\<lambda>db. slot_invariant (stories db) \<and> active_in_slot s (stories db) = [])
            (db_bind (run_statement (InsertStoryInSlot f c s) (insert_story_in_slot now f c s))
               (\<lambda>row. db_return (slot_story_view_of row)))
            (\<lambda>_ db. slot_invariant (stories db)) (\<lambda>db. slot_invariant (stories db))"
    proof (rule triple_bind)
      show "db_triple (\<lambda>db. slot_invariant (stories db) \<and> active_in_slot s (stories db) = [])
              (run_statement (InsertStoryInSlot f c s) (insert_story_in_slot now f c s))
              (\<lambda>_ db. slot_invariant (stories db)) (\<lambda>db. slot_invariant (stories db))"
        by (rule triple_run_statement
              [where p = "\<lambda>rows. slot_invariant rows \<and> active_in_slot s rows = []"
                 and e = slot_invariant and q = "\<lambda>_. slot_invariant"])
           (simp_all add: insert_story_in_slot_invariant)
    next
      fix row :: story_row
      show "db_triple (\<lambda>db. slot_invariant (stories db)) (db_return (slot_story_view_of row))
              (\<lambda>_ db. slot_invariant (stories db)) (\<lambda>db. slot_invariant (stories db))"
        by (rule triple_return)
    qed
  qed
qed

lemma create_story_in_slot_invariant:
  assumes "slot_invariant (stories_of db_pool)"
  shows "slot_invariant (stories_of (fst (create_story_in_slot cfg now db_pool user_id s f c)))"
  unfolding create_story_in_slot_def
  using assms with_pool_triple [OF create_story_in_slot_body assms slot_invariant_Nil]
  by simp

lemma delete_story_body:
  "db_triple (\<lambda>db. slot_invariant (stories db))
     (db_bind acquire (\<lambda>_.
      db_bind (run_statement (DeleteStory i) (delete_stories i))
        (\<lambda>result. if result = 0 then db_raise (HTTPException 404 ''Story not found'')
                  else db_return ''Story deleted successfully'')))
     (\<lambda>_ db. slot_invariant (stories db)) (\<lambda>db. slot_invariant (stories db))"
proof (rule triple_bind)
  show "db_triple (\<lambda>db. slot_invariant (stories db)) acquire
          (\<lambda>_ db. slot_invariant (stories db)) (\<lambda>db. slot_invariant (stories db))"
    by (rule triple_acquire)
next
  fix u :: unit
  show "db_triple (\<lambda>db. slot_invariant (stories db))
          (db_bind (run_statement (DeleteStory i) (delete_stories i))
             (\<lambda>result. if result = 0 then db_raise (HTTPException 404 ''Story not found'')
                       else db_return ''Story deleted successfully''))
          (\<lambda>_ db. slot_invariant (stories db)) (\<lambda>db. slot_invariant (stories db))"
  proof (rule triple_bind)
    show "db_triple (\<lambda>db. slot_invariant (stories db))
            (run_statement (DeleteStory i) (delete_stories i))
            (\<lambda>_ db. slot_invariant (stories db)) (\<lambda>db. slot_invariant (stories db))"
      by (rule triple_run_statement
            [where p = slot_invariant and e = slot_invariant and q = "\<lambda>_. slot_invariant"])
         (simp_all add: delete_stories_invariant)
  next
    fix result :: nat
    show "db_triple (\<lambda>db. slot_invariant (stories db))
            (if result = 0 then db_raise (HTTPException 404 ''Story not found'')
             else db_return ''Story deleted successfully'')
            (\<lambda>_ db. slot_invariant (stories db)) (\<lambda>db. slot_invariant (stories db))"
      by (simp add: triple_raise triple_return)
  qed
qed

lemma delete_story_invariant:
  assumes "slot_invariant (stories_of db_pool)"
  shows "slot_invariant (stories_of (fst (delete_story cfg db_pool i user_id)))"
  unfolding delete_story_def
  using assms with_pool_triple [OF delete_story_body assms slot_invariant_Nil]
  by simp

lemma update_story_body:
  assumes "su_is_active patch \<noteq> Some True \<or> keeps"
  shows "db_triple
     (\<lambda>db. slot_invariant (stories db) \<and> (keeps \<longrightarrow> activation_keeps_slots i (stories db)))
     (db_bind acquire (\<lambda>_.
        let updates = build_updates patch in
        if updates = [] then db_raise (HTTPException 400 ''No fields to update'')
        else
          db_bind (run_statement (UpdateStory updates i) (update_stories updates i))
            (\<lambda>row. case row of
                 None \<Rightarrow> db_raise (HTTPException 404 ''Story not found'')
               | Some r \<Rightarrow> db_return (story_view_of r))))
     (\<lambda>_ db. slot_invariant (stories db)) (\<lambda>db. slot_invariant (stories db))"
proof (rule triple_bind)
  show "db_triple
          (\<lambda>db. slot_invariant (stories db) \<and> (keeps \<longrightarrow> activation_keeps_slots i (stories db)))
          acquire
          (\<lambda>_ db. slot_invariant (stories db) \<and> (keeps \<longrightarrow> activation_keeps_slots i (stories db)))
          (\<lambda>db. slot_invariant (stories db))"
    by (rule triple_acquire
          [where p = "\<lambda>rows. slot_invariant rows \<and> (keeps \<longrightarrow> activation_keeps_slots i rows)"
             and e = slot_invariant]) simp
next
  fix u :: unit
  have run: "db_triple
          (\<lambda>db. slot_invariant (stories db) \<and> (keeps \<longrightarrow> activation_keeps_slots i (stories db)))
          (db_bind (run_statement (UpdateStory (build_updates patch) i)
                      (update_stories (build_updates patch) i))
             (\<lambda>row. case row of
                  None \<Rightarrow> db_raise (HTTPException 404 ''Story not found'')
                | Some r \<Rightarrow> db_return (story_view_of r)))
          (\<lambda>_ db. slot_invariant (stories db)) (\<lambda>db. slot_invariant (stories db))"
  proof (rule triple_bind)
    show "db_triple
            (\<lambda>db. slot_invariant (stories db) \<and> (keeps \<longrightarrow> activation_keeps_slots i (stories db)))
            (run_statement (UpdateStory (build_updates patch) i)
               (update_stories (build_updates patch) i))
            (\<lambda>_ db. slot_invariant (stories db)) (\<lambda>db. slot_invariant (stories db))"
      by (rule triple_run_statement
            [where p = "\<lambda>rows. slot_invariant rows \<and> (keeps \<longrightarrow> activation_keeps_slots i rows)"
               and e = slot_invariant and q = "\<lambda>_. slot_invariant"])
         (use assms in \<open>auto intro: update_stories_invariant\<close>)
  next
    fix row :: "story_row option"
    show "db_triple (\<lambda>db. slot_invariant (stories db))
            (case row of
               None \<Rightarrow> db_raise (HTTPException 404 ''Story not found'')
             | Some r \<Rightarrow> db_return (story_view_of r))
            (\<lambda>_ db. slot_invariant (stories db)) (\<lambda>db. slot_invariant (stories db))"
      by (cases row) (simp_all add: triple_raise triple_return)
  qed
  show "db_triple
          (\<lambda>db. slot_invariant (stories db) \<and> (keeps \<longrightarrow> activation_keeps_slots i (stories db)))
          (let updates = build_updates patch in
           if updates = [] then db_raise (HTTPException 400 ''No fields to update'')
           else
             db_bind (run_statement (UpdateStory updates i) (update_stories updates i))
               (\<lambda>row. case row of
                    None \<Rightarrow> db_raise (HTTPException 404 ''Story not found'')
                  | Some r \<Rightarrow> db_return (story_view_of r)))
          (\<lambda>_ db. slot_invariant (stories db)) (\<lambda>db. slot_invariant (stories db))"
  proof (cases "build_updates patch = []")
    case True
    have "db_triple
            (\<lambda>db. slot_invariant (stories db) \<and> (keeps \<longrightarrow> activation_keeps_slots i (stories db)))
            (db_raise (HTTPException 400 ''No fields to update''))
            (\<lambda>_ db. slot_invariant (stories db)) (\<lambda>db. slot_invariant (stories db))"
      by (rule triple_raise) simp
    with True show ?thesis by (simp add: Let_def)
  next
    case False
    with run show ?thesis by (simp add: Let_def)
  qed
qed

lemma update_story_invariant:
  assumes "su_is_active patch \<noteq> Some True \<or> activation_keeps_slots i (stories_of db_pool)"
    and "slot_invariant (stories_of db_pool)"
  shows "slot_invariant (stories_of (fst (update_story cfg db_pool i patch user_id)))"
proof -
  define keeps where "keeps = activation_keeps_slots i (stories_of db_pool)"
  have cond: "su_is_active patch \<noteq> Some True \<or> keeps"
    using assms(1) by (simp add: keeps_def)
  have pre: "slot_invariant (stories_of db_pool)
             \<and> (keeps \<longrightarrow> activation_keeps_slots i (stories_of db_pool))"
    using assms(2) by (simp add: keeps_def)
  from with_pool_triple
    [where p = "\<lambda>rows. slot_invariant rows \<and> (keeps \<longrightarrow> activation_keeps_slots i rows)"
       and q = slot_invariant, OF update_story_body [OF cond] pre slot_invariant_Nil]
  show ?thesis
    unfolding update_story_def using assms(2) by simp
qed

lemma slot_invariant_append_default:
  "slot_invariant rows \<Longrightarrow>
   (\<forall>s \<in> {1, 2, 3}. s_slot_number row = Some s \<longrightarrow> active_in_slot s rows = []) \<Longrightarrow>
   slot_invariant (rows @ [row])"
  by (auto simp: slot_invariant_def active_in_slot_def)

lemma insert_story_invariant:
  assumes "slot_invariant (stories db)"
    and "\<forall>s \<in> {1, 2, 3}. slot_number_default db = Some s \<longrightarrow> active_in_slot s (stories db) = []"
  shows "slot_invariant (stories (snd (insert_story now f c n db)))"
proof -
  have "stories (snd (insert_story now f c n db)) =
          stories db @ [\<lparr>s_id = stories_id_seq db, s_file_id = f, s_caption = c,
                          s_slot_number = slot_number_default db, s_order_num = n,
                          s_created_at = now, s_is_active = True\<rparr>]"
    by (simp add: insert_story_def Let_def)
  moreover have "slot_invariant
      (stories db @ [\<lparr>s_id = stories_id_seq db, s_file_id = f, s_caption = c,
                       s_slot_number = slot_number_default db, s_order_num = n,
                       s_created_at = now, s_is_active = True\<rparr>])"
    using assms by (intro slot_invariant_append_default) simp_all
  ultimately show ?thesis by simp
qed

lemma create_story_invariant:
  assumes "default_slot_free db_pool" and "slot_invariant (stories_of db_pool)"
  shows "slot_invariant (stories_of (fst (create_story cfg now db_pool story user_id)))"
proof (cases db_pool)
  case None
  then show ?thesis
    by (simp add: create_story_def with_pool_def stories_of_def slot_invariant_Nil)
next
  case (Some db)
  with assms have i: "slot_invariant (stories db)"
    and d: "\<forall>s \<in> {1, 2, 3}. slot_number_default db = Some s \<longrightarrow> active_in_slot s (stories db) = []"
    by (simp_all add: default_slot_free_def stories_of_def)
  have ghost: "slot_invariant (stories (snd (insert_story now f c n (db\<lparr>faults := fs\<rparr>))))"
    for f c n fs
    using i d by (intro insert_story_invariant) simp_all
  have plain: "slot_invariant (stories (snd (insert_story now f c n db)))" for f c n
    using i d by (intro insert_story_invariant) simp_all
  show ?thesis
    using Some i ghost plain
    by (auto simp: create_story_def with_pool_def stories_of_def db_bind_def acquire_def
        driver_step_def run_statement_def db_return_def split_beta
        split: list.splits option.splits)
qed

subsection \<open>The two statements of a rotation\<close>

lemma db_bind_assoc: "db_bind (db_bind m k) h = db_bind m (\<lambda>x. db_bind (k x) h)"
  by (rule ext) (simp add: db_bind_def split: prod.splits sum.splits)

lemma with_pool_bind:
  "with_pool (Some db) (db_bind m k) =
     (case with_pool (Some db) m of
        (p, Inl e) \<Rightarrow> (p, Inl e)
      | (p, Inr x) \<Rightarrow> with_pool p (k x))"
  by (simp add: with_pool_def db_bind_def split: prod.splits sum.splits exn.splits)

text \<open>
  The handler is its first part followed, when that returns, by its second part on the
  store the first part left.
\<close>

lemma create_story_in_slot_as_parts:
  "create_story_in_slot cfg now db_pool user_id s ref cap =
     (case create_story_in_slot_deactivate cfg db_pool user_id s of
        (p, Inl e) \<Rightarrow> (p, Inl e)
      | (p, Inr _) \<Rightarrow> create_story_in_slot_insert now p s ref cap)"
proof (cases db_pool)
  case None
  then show ?thesis
    by (simp add: create_story_in_slot_def create_story_in_slot_deactivate_def with_pool_def)
next
  case (Some db)
  have "with_pool (Some db)
          (db_bind acquire (\<lambda>_.
           db_bind (run_statement (DeactivateSlot s) (deactivate_slot s)) (\<lambda>_.
           db_bind (run_statement (InsertStoryInSlot ref cap s) (insert_story_in_slot now ref cap s))
             (\<lambda>row. db_return (slot_story_view_of row)))))
        = with_pool (Some db)
          (db_bind (db_bind acquire (\<lambda>_. run_statement (DeactivateSlot s) (deactivate_slot s)))
             (\<lambda>_. db_bind (run_statement (InsertStoryInSlot ref cap s)
                             (insert_story_in_slot now ref cap s))
                     (\<lambda>row. db_return (slot_story_view_of row))))"
    by (simp only: db_bind_assoc)
  then show ?thesis
    unfolding Some create_story_in_slot_def create_story_in_slot_deactivate_def
      create_story_in_slot_insert_def
    by (simp add: with_pool_bind)
qed

lemma deactivate_part_body:
  "db_triple (\<lambda>db. slot_invariant (stories db))
     (db_bind acquire (\<lambda>_. run_statement (DeactivateSlot s) (deactivate_slot s)))
     (\<lambda>_ db. slot_invariant (stories db)) (\<lambda>db. slot_invariant (stories db))"
proof (rule triple_bind)
  show "db_triple (\<lambda>db. slot_invariant (stories db)) acquire
          (\<lambda>_ db. slot_invariant (stories db)) (\<lambda>db. slot_invariant (stories db))"
    by (rule triple_acquire)
next
  fix u :: unit
  show "db_triple (\<lambda>db. slot_invariant (stories db))
          (run_statement (DeactivateSlot s) (deactivate_slot s))
          (\<lambda>_ db. slot_invariant (stories db)) (\<lambda>db. slot_invariant (stories db))"
    by (rule triple_run_statement
          [where p = slot_invariant and e = slot_invariant and q = "\<lambda>_. slot_invariant"])
       (simp_all add: deactivate_slot_invariant)
qed

lemma create_story_in_slot_deactivate_invariant:
  assumes "slot_invariant (stories_of db_pool)"
  shows "slot_invariant (stories_of (fst (create_story_in_slot_deactivate cfg db_pool user_id s)))"
  unfolding create_story_in_slot_deactivate_def
  using assms with_pool_triple [OF deactivate_part_body assms slot_invariant_Nil]
  by simp

lemma insert_part_body:
  "db_triple (\<lambda>db. slot_invariant (stories db) \<and> active_in_slot s (stories db) = [])
     (db_bind (run_statement (InsertStoryInSlot f c s) (insert_story_in_slot now f c s))
        (\<lambda>row. db_return (slot_story_view_of row)))
     (\<lambda>_ db. slot_invariant (stories db)) (\<lambda>db. slot_invariant (stories db))"
proof (rule triple_bind)
  show "db_triple (\<lambda>db. slot_invariant (stories db) \<and> active_in_slot s (stories db) = [])
          (run_statement (InsertStoryInSlot f c s) (insert_story_in_slot now f c s))
          (\<lambda>_ db. slot_invariant (stories db)) (\<lambda>db. slot_invariant (stories db))"
    by (rule triple_run_statement
          [where p = "\<lambda>rows. slot_invariant rows \<and> active_in_slot s rows = []"
             and e = slot_invariant and q = "\<lambda>_. slot_invariant"])
       (simp_all add: insert_story_in_slot_invariant)
next
  fix row :: story_row
  show "db_triple (\<lambda>db. slot_invariant (stories db)) (db_return (slot_story_view_of row))
          (\<lambda>_ db. slot_invariant (stories db)) (\<lambda>db. slot_invariant (stories db))"
    by (rule triple_return)
qed

lemma create_story_in_slot_insert_invariant:
  assumes "slot_invariant (stories_of db_pool)" and "active_in_slot s (stories_of db_pool) = []"
  shows "slot_invariant (stories_of (fst (create_story_in_slot_insert now db_pool s f c)))"
proof -
  have pre: "slot_invariant (stories_of db_pool) \<and> active_in_slot s (stories_of db_pool) = []"
    using assms by simp
  from with_pool_triple
    [where p = "\<lambda>rows. slot_invariant rows \<and> active_in_slot s rows = []" and q = slot_invariant,
      OF insert_part_body pre slot_invariant_Nil]
  show ?thesis
    unfolding create_story_in_slot_insert_def .
qed

text \<open>
  The condition on the second part is needed: when the statements of two rotations of
  slot 1 interleave, both parts of both requests return and two rows of slot 1 end up
  active.
\<close>

lemma interleaved_rotations_double_slot:
  "map s_slot_number (filter s_is_active (stories_of pool_interleaved)) = [Some 1, Some 1]
   \<and> \<not> slot_invariant (stories_of pool_interleaved)"
  by (simp add: pool_interleaved_def create_story_in_slot_deactivate_def
      create_story_in_slot_insert_def with_pool_def db_bind_def db_return_def acquire_def
      driver_step_def run_statement_def deactivate_slot_def insert_story_in_slot_def
      is_admin_def cfg0_def db0_def Let_def stories_of_def slot_invariant_def active_in_slot_def)

text \<open>
  The condition on \<open>update_story\<close> is exact: when an admin's update setting
  \<open>is_active\<close> to true runs, the invariant holds afterwards just when no slot holds two
  rows that are active or have the id.
\<close>

lemma update_story_activation_exact:
  assumes "is_admin cfg user_id" and "faults db = []" and "su_is_active patch = Some True"
  shows "slot_invariant (stories_of (fst (update_story cfg (Some db) i patch user_id)))
           = activation_keeps_slots i (stories db)"
proof -
  have nonempty: "build_updates patch \<noteq> []"
    using assms(3) by (simp add: build_updates_def)
  have "stories_of (fst (update_story cfg (Some db) i patch user_id))
          = map (\<lambda>row. if s_id row = i then patch_row patch row else row) (stories db)"
    using assms(1,2) nonempty
    by (simp add: update_story_def with_pool_def db_bind_def Let_def acquire_no_faults
        run_statement_no_faults update_stories_eq db_raise_def db_return_def stories_of_def
        split: option.splits)
  moreover have "length (filter (\<lambda>row. s_slot_number row = Some s \<and> s_is_active row)
                   (map (\<lambda>row. if s_id row = i then patch_row patch row else row) rows))
        = length (filter (\<lambda>row. s_slot_number row = Some s \<and> (s_id row = i \<or> s_is_active row)) rows)"
    for s rows
    using assms(3) by (induction rows) (auto simp: patch_row_def)
  ultimately show ?thesis
    by (simp add: slot_invariant_def active_in_slot_def activation_keeps_slots_def)
qed

text \<open>
  C1, as stated, fails: after an admin has rotated slot 1 twice the invariant holds, and
  \<open>update_story\<close> with \<^verbatim>\<open>is_active: true\<close> on the story rotated out makes two
  rows of slot 1 active.
\<close>

theorem update_story_reactivates_second_row:
  "slot_invariant (stories_of pool_rotated_twice)
   \<and> \<not> slot_invariant (stories_of (fst (update_story cfg0 pool_rotated_twice 1
          \<lparr>su_caption = None, su_order_num = None, su_is_active = Some True\<rparr> 825042510)))"
  by (simp add: pool_rotated_twice_def create_story_in_slot_def update_story_def with_pool_def
      db_bind_def db_return_def acquire_def driver_step_def run_statement_def
      deactivate_slot_def insert_story_in_slot_def update_stories_def build_updates_def
      is_admin_def cfg0_def db0_def Let_def stories_of_def slot_invariant_def active_in_slot_def)

text \<open>
  C1, amended. Whatever the caller and whatever the driver raises, a stories table with
  at most one active row in each of the slots 1, 2, 3 still has that property
  \<^item> after \<open>create_story_in_slot\<close> when no statement of another request runs between
    its UPDATE and its INSERT, that is, after its two parts run back to back; and part
    by part, after its UPDATE, and after its INSERT when the slot has no active row at
    that moment;
  \<^item> after \<open>delete_story\<close>;
  \<^item> after \<open>update_story\<close>, unless the partial sets \<open>is_active\<close> to true and some
    slot holds two rows that are active or have the given id;
  \<^item> after \<open>create_story\<close>, unless the column default of \<open>slot_number\<close> is one of
    the slots 1, 2, 3 and that slot has an active row.
\<close>

theorem slot_invariant_preserved:
  assumes "slot_invariant (stories_of db_pool)"
  shows "slot_invariant (stories_of
           (fst (create_story_in_slot cfg now db_pool user_id slot_number file_id caption)))
       \<and> create_story_in_slot cfg now db_pool user_id slot_number file_id caption =
           (case create_story_in_slot_deactivate cfg db_pool user_id slot_number of
              (p, Inl e) \<Rightarrow> (p, Inl e)
            | (p, Inr _) \<Rightarrow> create_story_in_slot_insert now p slot_number file_id caption)
       \<and> slot_invariant (stories_of
           (fst (create_story_in_slot_deactivate cfg db_pool user_id slot_number)))
       \<and> (active_in_slot slot_number (stories_of db_pool) = [] \<longrightarrow>
            slot_invariant (stories_of
              (fst (create_story_in_slot_insert now db_pool slot_number file_id caption))))
       \<and> slot_invariant (stories_of (fst (delete_story cfg db_pool story_id user_id)))
       \<and> (su_is_active patch \<noteq> Some True \<or> activation_keeps_slots story_id (stories_of db_pool)
            \<longrightarrow> slot_invariant (stories_of (fst (update_story cfg db_pool story_id patch user_id))))
       \<and> (default_slot_free db_pool \<longrightarrow>
            slot_invariant (stories_of (fst (create_story cfg now db_pool story user_id))))"
proof -
  have upd: "su_is_active patch \<noteq> Some True \<or> activation_keeps_slots story_id (stories_of db_pool)
            \<longrightarrow> slot_invariant (stories_of (fst (update_story cfg db_pool story_id patch user_id)))"
    using assms update_story_invariant [of patch story_id db_pool cfg user_id] by blast
  have ins: "active_in_slot slot_number (stories_of db_pool) = [] \<longrightarrow>
            slot_invariant (stories_of
              (fst (create_story_in_slot_insert now db_pool slot_number file_id caption)))"
    using assms by (simp add: create_story_in_slot_insert_invariant)
  have cre: "default_slot_free db_pool \<longrightarrow>
            slot_invariant (stories_of (fst (create_story cfg now db_pool story user_id)))"
    using assms by (simp add: create_story_invariant)
  show ?thesis
    by (intro conjI upd ins cre create_story_in_slot_invariant [OF assms]
        create_story_in_slot_deactivate_invariant [OF assms] delete_story_invariant [OF assms]
        create_story_in_slot_as_parts)
qed

theorem slot_invariant_preserved_witness:
  "slot_invariant (stories_of pool_rotated_twice)
   \<and> slot_invariant (stories_of
        (fst (create_story_in_slot cfg0 30 pool_rotated_twice 825042510 2 ''third'' None)))
   \<and> activation_keeps_slots 2 (stories_of pool_rotated_twice)
   \<and> slot_invariant (stories_of
        (fst (update_story cfg0 pool_rotated_twice 2
               \<lparr>su_caption = Some ''new'', su_order_num = None, su_is_active = Some True\<rparr>
               825042510)))
   \<and> active_in_slot 2 (stories_of pool_rotated_twice) = []
   \<and> slot_invariant (stories_of
        (fst (create_story_in_slot_insert 30 pool_rotated_twice 2 ''third'' None)))
   \<and> default_slot_free pool_rotated_twice
   \<and> slot_invariant (stories_of
        (fst (create_story cfg0 30 pool_rotated_twice
               \<lparr>sc_file_id = ''ref'', sc_caption = Some ''cap'', sc_order_num = 0\<rparr> 825042510)))"
proof -
  have rows: "stories_of pool_rotated_twice =
      [\<lparr>s_id = 1, s_file_id = ''first'', s_caption = None, s_slot_number = Some 1,
        s_order_num = 0, s_created_at = 10, s_is_active = False\<rparr>,
       \<lparr>s_id = 2, s_file_id = ''second'', s_caption = None, s_slot_number = Some 1,
        s_order_num = 0, s_created_at = 20, s_is_active = True\<rparr>]"
    by (simp add: pool_rotated_twice_def create_story_in_slot_def with_pool_def
      db_bind_def db_return_def acquire_def driver_step_def run_statement_def
      deactivate_slot_def insert_story_in_slot_def
      is_admin_def cfg0_def db0_def Let_def stories_of_def)
  have inv: "slot_invariant (stories_of pool_rotated_twice)"
    by (simp add: rows slot_invariant_def active_in_slot_def)
  have keeps: "activation_keeps_slots 2 (stories_of pool_rotated_twice)"
    by (simp add: rows activation_keeps_slots_def)
  have free: "active_in_slot 2 (stories_of pool_rotated_twice) = []"
    by (simp add: rows active_in_slot_def)
  have dflt: "default_slot_free pool_rotated_twice"
    by (simp add: pool_rotated_twice_def create_story_in_slot_def with_pool_def
      db_bind_def db_return_def acquire_def driver_step_def run_statement_def
      deactivate_slot_def insert_story_in_slot_def
      is_admin_def cfg0_def db0_def Let_def default_slot_free_def)
  from slot_invariant_preserved [OF inv, of cfg0 30 825042510 2 "''third''" None 2
        "\<lparr>su_caption = Some ''new'', su_order_num = None, su_is_active = Some True\<rparr>"
        "\<lparr>sc_file_id = ''ref'', sc_caption = Some ''cap'', sc_order_num = 0\<rparr>"]
  show ?thesis
    using inv keeps free dflt by blast
qed

subsection \<open>Slot rotation\<close>
















end
